theory Spec2Isabelle
  imports Main
begin

section \<open>The scheduler service and its collaborators\<close>

text \<open>
  The development embeds the class \<open>SchedulerService\<close>: its private fields are the
  record \<open>scheduler\<close>, each method is a function on that record. Calls that leave the
  class (the two cron jobs, the database, the posting service, the toggle service and the
  logger) are appended, in program order, to the field \<open>effects\<close>, so that "this
  collaborator was (not) called" is a statement about a list. What a collaborator
  answers is an input of the method that calls it: a value, or the exception it throws.

  A log line is recorded with its level and its fixed text; the values interpolated
  into the text and the pictographs of the source are left out.
\<close>

subsection \<open>Values exchanged with the collaborators\<close>

text \<open>
  What a collaborator throws is typed \<open>any\<close>. The class only ever reads the
  property \<open>message\<close> of it: \<open>JsError m\<close> is a value whose \<open>message\<close> is the
  string \<open>m\<close> (an \<open>Error\<close> object), \<open>JsOther\<close> a value that has no such
  property (reading it gives \<open>undefined\<close>), and \<open>JsNullish\<close> is \<open>null\<close> or
  \<open>undefined\<close>, on which reading \<open>message\<close> throws a \<open>TypeError\<close>
  (\<open>typeError\<close>, with the text of its message shortened).
\<close>

datatype js_error = JsError string | JsOther | JsNullish

definition typeError :: js_error where
  "typeError = JsError ''Cannot read properties of null or undefined''"

fun readMessage :: "js_error \<Rightarrow> js_error + string option" where
  "readMessage (JsError m) = Inr (Some m)"
| "readMessage JsOther = Inr None"
| "readMessage JsNullish = Inl typeError"

type_synonym sale = nat
type_synonym registration = nat

record post_result =
  success :: bool
  skipped :: bool

record settings =
  enabled :: bool
  registrationsEnabled :: bool

record sales_result =
  fetched :: int
  newSales :: int
  duplicates :: int
  errors :: int
  processedSales :: "sale list"

datatype level = Debug | Info | Warn | Error

datatype event =
    JobStart string
  | JobStop string
  | GetSystemState string
  | SetSystemState string string
  | RefreshTimeCache
  | ProcessNewSales
  | GetSettings
  | IsAutoPostingEnabled
  | AutoPostSales "sale list" settings
  | GetUnpostedRegistrations nat
  | AutoPostRegistrations "registration list" settings
  | Log level string

subsection \<open>The fields of the class\<close>

text \<open>
  A \<open>CronJob\<close> is kept with its cron expression, its time zone and whether it has
  been started and not stopped since. \<open>lastRunStats\<close> is either the fetch result
  spread together with \<open>autoPostResults\<close>, or the failure object
  \<open>{success: false, error, consecutiveErrors}\<close>. A \<open>Date\<close> is its time value,
  the milliseconds since the epoch.
\<close>

record cron_job =
  cronTime :: string
  timeZone :: string
  running :: bool

datatype run_stats =
    SalesStats sales_result "post_result list"
  | FailureStats "string option" nat

record scheduler =
  salesSyncJob :: "cron_job option"
  registrationSyncJob :: "cron_job option"
  isRunning :: bool
  lastRunTime :: "int option"
  lastRunStats :: "run_stats option"
  consecutiveErrors :: nat
  maxConsecutiveErrors :: nat
  effects :: "event list"

definition initial :: scheduler where
  "initial = \<lparr> salesSyncJob = None, registrationSyncJob = None, isRunning = False,
               lastRunTime = None, lastRunStats = None, consecutiveErrors = 0,
               maxConsecutiveErrors = 5, effects = [] \<rparr>"

definition emit :: "event \<Rightarrow> scheduler \<Rightarrow> scheduler" where
  "emit e s = s\<lparr>effects := effects s @ [e]\<rparr>"

definition logger :: "level \<Rightarrow> string \<Rightarrow> scheduler \<Rightarrow> scheduler" where
  "logger l m s = emit (Log l m) s"

text \<open>The events a method added: what \<open>s'\<close> has recorded beyond \<open>s\<close>.\<close>

definition emitted :: "scheduler \<Rightarrow> scheduler \<Rightarrow> event list" where
  "emitted s s' = drop (length (effects s)) (effects s')"

subsection \<open>Lifecycle control\<close>

text \<open>
  \<open>saveSchedulerState\<close> is called without \<open>await\<close>: the call to
  \<open>setSystemState\<close> is issued at once, and what follows its \<open>await\<close> (one debug
  or warning line, no field of the class) runs after the calling method has returned;
  nothing waits for its promise.
\<close>

definition saveSchedulerState :: "bool \<Rightarrow> scheduler \<Rightarrow> scheduler" where
  "saveSchedulerState en s =
     emit (SetSystemState ''scheduler_enabled'' (if en then ''true'' else ''false'')) s"

definition newCronJob :: "string \<Rightarrow> cron_job" where
  "newCronJob pat = \<lparr> cronTime = pat, timeZone = ''America/New_York'', running = False \<rparr>"

definition stopSalesJob :: "scheduler \<Rightarrow> scheduler" where
  "stopSalesJob s =
     (case salesSyncJob s of
        None \<Rightarrow> s
      | Some j \<Rightarrow> (emit (JobStop (cronTime j)) s)\<lparr>salesSyncJob := None\<rparr>)"

definition stopRegistrationJob :: "scheduler \<Rightarrow> scheduler" where
  "stopRegistrationJob s =
     (case registrationSyncJob s of
        None \<Rightarrow> s
      | Some j \<Rightarrow> (emit (JobStop (cronTime j)) s)\<lparr>registrationSyncJob := None\<rparr>)"

definition stop :: "scheduler \<Rightarrow> scheduler" where
  "stop s =
     (let wasRunning = (salesSyncJob s \<noteq> None \<or> registrationSyncJob s \<noteq> None);
          s1 = stopRegistrationJob (stopSalesJob s)
      in if wasRunning
         then logger Info ''Scheduler stopped - both sales and registration processing halted''
                (saveSchedulerState False (s1\<lparr>isRunning := False\<rparr>))
         else logger Info ''Scheduler was not running'' s1)"

definition forceStop :: "scheduler \<Rightarrow> scheduler" where
  "forceStop s =
     logger Info ''Scheduler force stopped - all activity halted''
       (saveSchedulerState False
          (stopRegistrationJob (stopSalesJob (s\<lparr>isRunning := False\<rparr>))))"

definition start :: "scheduler \<Rightarrow> scheduler" where
  "start s =
     (let s0 = (if salesSyncJob s \<noteq> None \<or> registrationSyncJob s \<noteq> None
                then stop (logger Warn ''Scheduler already running, stopping existing jobs first'' s)
                else s);
          sj = newCronJob ''0 */5 * * * *'';
          rj = newCronJob ''0 * * * * *'';
          s1 = s0\<lparr>salesSyncJob := Some sj, registrationSyncJob := Some rj\<rparr>;
          s2 = (emit (JobStart (cronTime sj)) s1)\<lparr>salesSyncJob := Some (sj\<lparr>running := True\<rparr>)\<rparr>;
          s3 = (emit (JobStart (cronTime rj)) s2)\<lparr>registrationSyncJob := Some (rj\<lparr>running := True\<rparr>)\<rparr>;
          s4 = saveSchedulerState True (s3\<lparr>isRunning := True\<rparr>)
      in logger Info ''Next registration run''
           (logger Info ''Next sales run''
              (logger Info ''Scheduler started - Sales: every 5 minutes, Registrations: every 1 minute''
                 s4)))"

definition resetErrorCounter :: "scheduler \<Rightarrow> scheduler" where
  "resetErrorCounter s = logger Info ''Scheduler error counter reset'' (s\<lparr>consecutiveErrors := 0\<rparr>)"

definition isHealthy :: "scheduler \<Rightarrow> bool" where
  "isHealthy s = (isRunning s \<and> consecutiveErrors s < maxConsecutiveErrors s)"

text \<open>
  An \<open>async\<close> method is a function to a pair: the exception its promise is rejected
  with (\<open>None\<close> when the promise is fulfilled) and the scheduler it leaves behind. A
  \<open>catch\<close> block that reads \<open>error.message\<close> evaluates it before the logger is
  called with it; on \<open>null\<close> or \<open>undefined\<close> the read throws, the rest of the block
  is not run and the method's promise is rejected.

  \<open>initializeFromDatabase\<close> reads the saved flag; the answer of the database is the
  argument \<open>saved\<close>: an exception, \<open>null\<close>, or a string.
\<close>

definition initializeFromDatabase ::
  "js_error + string option \<Rightarrow> scheduler \<Rightarrow> js_error option \<times> scheduler" where
  "initializeFromDatabase saved s =
     (let s0 = emit (GetSystemState ''scheduler_enabled'') s
      in case saved of
           Inl e \<Rightarrow>
             (case readMessage e of
                Inl thrown \<Rightarrow> (Some thrown, s0)
              | Inr msg \<Rightarrow>
                  (None,
                   logger Info ''Scheduler will remain stopped until manually started''
                     (logger Warn ''Could not load scheduler state from database:'' s0)))
         | Inr savedState \<Rightarrow>
             if savedState = Some ''true''
             then (None, start (logger Info ''Scheduler was enabled, starting automatically...'' s0))
             else (None, logger Info ''Scheduler is disabled by default - use dashboard to start'' s0))"

subsection \<open>The sales sync\<close>

text \<open>
  Between its guard and the end of its \<open>try\<close> block a run only waits for
  collaborators: it writes no field before \<open>salesSyncSucceeded\<close> or
  \<open>salesSyncFailed\<close>, and each of these runs without waiting. \<open>runSalesSync\<close> puts
  the pieces together for a run that no other operation interleaves with; the facts
  about the two handlers are stated for an arbitrary scheduler, so they also cover a run
  during which the scheduler was stopped or started.
\<close>

text \<open>
  What the collaborators answer during one sales sync, and the clock reading
  \<open>new Date()\<close> taken when the run begins. An answer is read only if the run gets
  as far as asking for it.
\<close>

record sales_env =
  startTime :: int
  refreshTimeCache_result :: "js_error + unit"
  processNewSales_result :: "js_error + sales_result"
  getSettings_result :: "js_error + settings"
  isAutoPostingEnabled_result :: bool
  autoPostSales_result :: "js_error + post_result list"

text \<open>
  The \<open>try\<close> block up to the point where the fields are written: the value is the
  exception that left the block, or the fetch result with \<open>autoPostResults\<close>.
  \<open>&&\<close> evaluates its right operand only when the left one is true.
\<close>

definition salesSyncTry ::
  "sales_env \<Rightarrow> scheduler \<Rightarrow> (js_error + sales_result \<times> post_result list) \<times> scheduler" where
  "salesSyncTry env s =
     (let s1 = emit RefreshTimeCache s in
      case refreshTimeCache_result env of
        Inl e \<Rightarrow> (Inl e, s1)
      | Inr u \<Rightarrow>
     (let s2 = emit ProcessNewSales s1 in
      case processNewSales_result env of
        Inl e \<Rightarrow> (Inl e, s2)
      | Inr result \<Rightarrow>
          if newSales result > 0 \<and> length (processedSales result) > 0
          then
            (let s3 = emit GetSettings s2 in
             case getSettings_result env of
               Inl e \<Rightarrow> (Inl e, s3)
             | Inr autoPostSettings \<Rightarrow>
                 if enabled autoPostSettings
                 then
                   (let s4 = emit IsAutoPostingEnabled s3 in
                    if isAutoPostingEnabled_result env
                    then
                      (let s5 = emit (AutoPostSales (processedSales result) autoPostSettings)
                                  (logger Info ''Auto-posting new sales...'' s4) in
                       case autoPostSales_result env of
                         Inl e \<Rightarrow> (Inl e, s5)
                       | Inr autoPostResults \<Rightarrow>
                           (Inr (result, autoPostResults),
                            logger Info ''Sales auto-posting results'' s5))
                    else (Inr (result, []), s4))
                 else (Inr (result, []), s3))
          else (Inr (result, []), s2)))"

text \<open>The end of the \<open>try\<close> block: the three fields, then the summary lines.\<close>

definition salesSyncSucceeded ::
  "int \<Rightarrow> sales_result \<Rightarrow> post_result list \<Rightarrow> scheduler \<Rightarrow> scheduler" where
  "salesSyncSucceeded t result autoPostResults s =
     (let s1 = s\<lparr>lastRunTime := Some t,
                 lastRunStats := Some (SalesStats result autoPostResults),
                 consecutiveErrors := 0\<rparr>;
          salesPosted = length (filter success autoPostResults);
          s2 = logger Info ''Sales sync completed'' s1;
          s3 = (if newSales result > 0 then logger Info ''Found new sales to process'' s2 else s2);
          s4 = (if salesPosted > 0 then logger Info ''Posted sale tweets'' s3 else s3)
      in if errors result > 0 then logger Warn ''Encountered errors during processing'' s4 else s4)"

text \<open>
  The \<open>catch\<close> block. The counter is incremented first; then \<open>error.message\<close> is
  read for the log line. When that read throws, the block ends there: \<open>lastRunStats\<close>
  is not written, the threshold is not tested and \<open>stop\<close> is not called.
\<close>

definition salesSyncFailed :: "js_error \<Rightarrow> scheduler \<Rightarrow> js_error option \<times> scheduler" where
  "salesSyncFailed e s =
     (let s1 = s\<lparr>consecutiveErrors := consecutiveErrors s + 1\<rparr>
      in case readMessage e of
           Inl thrown \<Rightarrow> (Some thrown, s1)
         | Inr msg \<Rightarrow>
             (let s2 = logger Error ''Scheduled sync failed'' s1;
                  s3 = s2\<lparr>lastRunStats := Some (FailureStats msg (consecutiveErrors s2))\<rparr>
              in (None,
                  if consecutiveErrors s3 \<ge> maxConsecutiveErrors s3
                  then logger Error ''SCHEDULER STOPPED DUE TO REPEATED FAILURES - Manual intervention required''
                         (stop (logger Error ''Too many consecutive errors. Stopping scheduler for safety.'' s3))
                  else s3)))"

definition runSalesSync :: "sales_env \<Rightarrow> scheduler \<Rightarrow> js_error option \<times> scheduler" where
  "runSalesSync env s =
     (if \<not> isRunning s
      then (None, logger Debug ''Skipping sales sync - scheduler is stopped'' s)
      else
        (case salesSyncTry env (logger Info ''Starting sales sync...'' s) of
           (Inr (result, autoPostResults), s') \<Rightarrow>
             (None, salesSyncSucceeded (startTime env) result autoPostResults s')
         | (Inl e, s') \<Rightarrow> salesSyncFailed e s'))"

subsection \<open>The registration sync\<close>

record registration_env =
  getUnpostedRegistrations_result :: "js_error + registration list"
  getRegistrationSettings_result :: "js_error + settings"
  isRegistrationPostingEnabled_result :: bool
  autoPostRegistrations_result :: "js_error + post_result list"

definition registrationSyncTry ::
  "registration_env \<Rightarrow> scheduler \<Rightarrow> (js_error + registration list \<times> post_result list) \<times> scheduler" where
  "registrationSyncTry env s =
     (let s1 = emit (GetUnpostedRegistrations 10) s in
      case getUnpostedRegistrations_result env of
        Inl e \<Rightarrow> (Inl e, s1)
      | Inr unpostedRegistrations \<Rightarrow>
          if length unpostedRegistrations > 0
          then
            (let s2 = emit GetSettings s1 in
             case getRegistrationSettings_result env of
               Inl e \<Rightarrow> (Inl e, s2)
             | Inr autoPostSettings \<Rightarrow>
                 if enabled autoPostSettings \<and> registrationsEnabled autoPostSettings
                 then
                   (let s3 = emit IsAutoPostingEnabled s2 in
                    if isRegistrationPostingEnabled_result env
                    then
                      (let s4 = emit (AutoPostRegistrations unpostedRegistrations autoPostSettings)
                                  (logger Info ''Auto-posting unposted registrations...'' s3) in
                       case autoPostRegistrations_result env of
                         Inl e \<Rightarrow> (Inl e, s4)
                       | Inr registrationAutoPostResults \<Rightarrow>
                           (Inr (unpostedRegistrations, registrationAutoPostResults),
                            logger Info ''Registration auto-posting results'' s4))
                    else (Inr (unpostedRegistrations, []), s3))
                 else (Inr (unpostedRegistrations, []), s2))
          else (Inr (unpostedRegistrations, []), s1))"

definition registrationSyncSucceeded ::
  "registration list \<Rightarrow> post_result list \<Rightarrow> scheduler \<Rightarrow> scheduler" where
  "registrationSyncSucceeded unpostedRegistrations registrationAutoPostResults s =
     (let registrationsPosted = length (filter success registrationAutoPostResults);
          s1 = logger Info ''Registration sync completed'' s;
          s2 = (if length unpostedRegistrations > 0
                then logger Info ''Processed registrations'' s1 else s1)
      in if registrationsPosted > 0 then logger Info ''Posted registration tweets'' s2 else s2)"

definition registrationSyncFailed :: "js_error \<Rightarrow> scheduler \<Rightarrow> js_error option \<times> scheduler" where
  "registrationSyncFailed e s =
     (case readMessage e of
        Inl thrown \<Rightarrow> (Some thrown, s)
      | Inr msg \<Rightarrow> (None, logger Error ''Registration sync failed:'' s))"

definition runRegistrationSync ::
  "registration_env \<Rightarrow> scheduler \<Rightarrow> js_error option \<times> scheduler" where
  "runRegistrationSync env s =
     (if \<not> isRunning s
      then (None, logger Debug ''Skipping registration sync - scheduler is stopped'' s)
      else
        (case registrationSyncTry env (logger Info ''Starting registration sync...'' s) of
           (Inr (unpostedRegistrations, registrationAutoPostResults), s') \<Rightarrow>
             (None, registrationSyncSucceeded unpostedRegistrations registrationAutoPostResults s')
         | (Inl e, s') \<Rightarrow> registrationSyncFailed e s'))"

subsection \<open>The manual trigger\<close>

text \<open>
  The two sync methods are awaited one after the other. If the promise of one is
  rejected, what follows it in the \<open>try\<close> block is skipped and the \<open>catch\<close> block
  \<open>manualSyncFailed\<close> builds \<open>{success: false, error}\<close>; it reads
  \<open>error.message\<close> as the other \<open>catch\<close> blocks do. The value is the object
  returned, or the exception the method's own promise is rejected with.
\<close>

record manual_result =
  manual_success :: bool
  manual_stats :: "string option"
  manual_error :: "string option"

definition manualSyncFailed ::
  "js_error \<Rightarrow> scheduler \<Rightarrow> (js_error + manual_result) \<times> scheduler" where
  "manualSyncFailed e s =
     (case readMessage e of
        Inl thrown \<Rightarrow> (Inl thrown, s)
      | Inr msg \<Rightarrow>
          (Inr \<lparr> manual_success = False, manual_stats = None, manual_error = msg \<rparr>,
           logger Error ''Manual sync failed:'' s))"

definition triggerManualSync ::
  "sales_env \<Rightarrow> registration_env \<Rightarrow> scheduler \<Rightarrow> (js_error + manual_result) \<times> scheduler" where
  "triggerManualSync senv renv s =
     (let s1 = logger Info ''Manual sync triggered - running both sales and registration processing'' s
      in case runSalesSync senv s1 of
           (Some e, s2) \<Rightarrow> manualSyncFailed e s2
         | (None, s2) \<Rightarrow>
             (case runRegistrationSync renv s2 of
                (Some e, s3) \<Rightarrow> manualSyncFailed e s3
              | (None, s3) \<Rightarrow>
                  (Inr \<lparr> manual_success = True,
                        manual_stats = Some ''Both sales and registration sync completed'',
                        manual_error = None \<rparr>, s3)))"

subsection \<open>Status\<close>

text \<open>
  The cron library is not part of the repository: what \<open>job.nextDate().toJSDate()\<close>
  yields is the parameter \<open>nextDate\<close>, and the clock reading \<open>Date.now()\<close> is the
  parameter \<open>now\<close>. Two \<open>Date\<close> objects compare by their time values.
\<close>

record status =
  status_isRunning :: bool
  status_lastRunTime :: "int option"
  status_nextRunTime :: "int option"
  status_nextSalesRunTime :: "int option"
  status_nextRegistrationRunTime :: "int option"
  status_lastRunStats :: "run_stats option"
  status_consecutiveErrors :: nat
  status_uptime :: int

definition getStatus :: "(cron_job \<Rightarrow> int) \<Rightarrow> int \<Rightarrow> scheduler \<Rightarrow> status" where
  "getStatus nextDate now s =
     (let nextSalesRunTime = map_option nextDate (salesSyncJob s);
          nextRegistrationRunTime = map_option nextDate (registrationSyncJob s);
          nextRunTime =
            (case (nextSalesRunTime, nextRegistrationRunTime) of
               (Some a, Some b) \<Rightarrow> Some (if a < b then a else b)
             | (Some a, None) \<Rightarrow> Some a
             | (None, Some b) \<Rightarrow> Some b
             | (None, None) \<Rightarrow> None)
      in \<lparr> status_isRunning = isRunning s,
           status_lastRunTime = lastRunTime s,
           status_nextRunTime = nextRunTime,
           status_nextSalesRunTime = nextSalesRunTime,
           status_nextRegistrationRunTime = nextRegistrationRunTime,
           status_lastRunStats = lastRunStats s,
           status_consecutiveErrors = consecutiveErrors s,
           status_uptime = (case lastRunTime s of Some t \<Rightarrow> now - t | None \<Rightarrow> 0) \<rparr>)"

subsection \<open>Local time of a Date\<close>

text \<open>
  \<open>getMinutes\<close> and \<open>setMinutes\<close> work on the local time of the host. Following the
  language definition, the host's zone is given by the offset in force at an instant
  (\<open>offsetAtUTC\<close>) and the offset chosen for a local time value (\<open>offsetAtLocal\<close>),
  both in milliseconds; \<open>setMinutes\<close> keeps day, hour, second and millisecond of the
  local time, replaces the minute (which may lie outside 0..59) and converts back.
  Time values stay far inside the range of a \<open>Date\<close>, so clipping is left out.
\<close>

record zone =
  offsetAtUTC :: "int \<Rightarrow> int"
  offsetAtLocal :: "int \<Rightarrow> int"

definition msPerMinute :: int where "msPerMinute = 60000"
definition msPerHour :: int where "msPerHour = 3600000"
definition msPerDay :: int where "msPerDay = 86400000"

definition LocalTime :: "zone \<Rightarrow> int \<Rightarrow> int" where
  "LocalTime z t = t + offsetAtUTC z t"

definition UTC :: "zone \<Rightarrow> int \<Rightarrow> int" where
  "UTC z t = t - offsetAtLocal z t"

definition Day :: "int \<Rightarrow> int" where "Day t = t div msPerDay"
definition HourFromTime :: "int \<Rightarrow> int" where "HourFromTime t = (t div msPerHour) mod 24"
definition MinFromTime :: "int \<Rightarrow> int" where "MinFromTime t = (t div msPerMinute) mod 60"
definition SecFromTime :: "int \<Rightarrow> int" where "SecFromTime t = (t div 1000) mod 60"
definition msFromTime :: "int \<Rightarrow> int" where "msFromTime t = t mod 1000"

definition MakeTime :: "int \<Rightarrow> int \<Rightarrow> int \<Rightarrow> int \<Rightarrow> int" where
  "MakeTime h m sec ms = h * msPerHour + m * msPerMinute + sec * 1000 + ms"

definition MakeDate :: "int \<Rightarrow> int \<Rightarrow> int" where
  "MakeDate day time = day * msPerDay + time"

definition getMinutes :: "zone \<Rightarrow> int \<Rightarrow> int" where
  "getMinutes z t = MinFromTime (LocalTime z t)"

definition setMinutes :: "zone \<Rightarrow> int \<Rightarrow> int \<Rightarrow> int" where
  "setMinutes z t m =
     (let tl = LocalTime z t
      in UTC z (MakeDate (Day tl) (MakeTime (HourFromTime tl) m (SecFromTime tl) (msFromTime tl))))"

subsection \<open>Upcoming runs\<close>

text \<open>
  Each of the two loops of \<open>getUpcomingRuns\<close> copies the job's next date and moves the
  copy's minutes by \<open>i * 5\<close>, respectively \<open>i\<close>; \<open>upcomingLoop\<close> is that loop with
  the factor as \<open>per\<close>. The next date of a job is read once per call: the clock does not
  pass a firing time while the method runs.
\<close>

record upcoming =
  sales :: "int list"
  registrations :: "int list"

function upcomingLoop :: "zone \<Rightarrow> int \<Rightarrow> int \<Rightarrow> int \<Rightarrow> int \<Rightarrow> int list \<Rightarrow> int list" where
  "upcomingLoop z next per i count runs =
     (if i < count
      then upcomingLoop z next per (i + 1) count
             (runs @ [setMinutes z next (getMinutes z next + i * per)])
      else runs)"
  by pat_completeness auto
termination
  by (relation "measure (\<lambda>(z, next, per, i, count, runs). nat (count - i))") auto

definition getUpcomingRuns :: "zone \<Rightarrow> (cron_job \<Rightarrow> int) \<Rightarrow> int \<Rightarrow> scheduler \<Rightarrow> upcoming" where
  "getUpcomingRuns z nextDate count s =
     (case (salesSyncJob s, registrationSyncJob s) of
        (Some sj, Some rj) \<Rightarrow>
          \<lparr> sales = upcomingLoop z (nextDate sj) 5 0 count [],
            registrations = upcomingLoop z (nextDate rj) 1 0 count [] \<rparr>
      | _ \<Rightarrow> \<lparr> sales = [], registrations = [] \<rparr>)"

section \<open>Notions used in the statements\<close>

text \<open>
  The state invariant of the data model: the scheduler counts as running exactly when
  both jobs exist and are active.
\<close>

definition bothActive :: "scheduler \<Rightarrow> bool" where
  "bothActive s =
     (case (salesSyncJob s, registrationSyncJob s) of
        (Some sj, Some rj) \<Rightarrow> running sj \<and> running rj
      | _ \<Rightarrow> False)"

definition stateInvariant :: "scheduler \<Rightarrow> bool" where
  "stateInvariant s = (isRunning s = bothActive s)"

text \<open>The operations of the class that write its fields, with their inputs.\<close>

datatype operation =
    Start
  | Stop
  | ForceStop
  | ResetErrorCounter
  | InitializeFromDatabase "js_error + string option"
  | RunSalesSync sales_env
  | RunRegistrationSync registration_env
  | TriggerManualSync sales_env registration_env

fun exec :: "operation \<Rightarrow> scheduler \<Rightarrow> scheduler" where
  "exec Start s = start s"
| "exec Stop s = stop s"
| "exec ForceStop s = forceStop s"
| "exec ResetErrorCounter s = resetErrorCounter s"
| "exec (InitializeFromDatabase saved) s = snd (initializeFromDatabase saved s)"
| "exec (RunSalesSync env) s = snd (runSalesSync env s)"
| "exec (RunRegistrationSync env) s = snd (runRegistrationSync env s)"
| "exec (TriggerManualSync senv renv) s = snd (triggerManualSync senv renv s)"

text \<open>The states the class can be in: a new object, and what the operations make of it.\<close>

inductive reachable :: "scheduler \<Rightarrow> bool" where
  reachable_initial: "reachable initial"
| reachable_exec: "reachable s \<Longrightarrow> reachable (exec op s)"

text \<open>
  How the \<open>try\<close> block of a run ends under given answers. The answers alone decide
  it; the scheduler passed in only collects the events.
\<close>

definition salesSyncOutcome :: "sales_env \<Rightarrow> js_error + sales_result \<times> post_result list" where
  "salesSyncOutcome env = fst (salesSyncTry env initial)"

definition salesSyncThrows :: "sales_env \<Rightarrow> bool" where
  "salesSyncThrows env = isl (salesSyncOutcome env)"

definition salesSyncThrowsNullish :: "sales_env \<Rightarrow> bool" where
  "salesSyncThrowsNullish env = (salesSyncOutcome env = Inl JsNullish)"

definition registrationSyncThrows :: "registration_env \<Rightarrow> bool" where
  "registrationSyncThrows env = isl (fst (registrationSyncTry env initial))"

text \<open>
  Runs of one sync, one after the other, with nothing in between. The cron callback
  calls the sync method and drops its promise, so the next run starts from the scheduler
  the previous one left, whether that promise was fulfilled or rejected.
\<close>

fun runSalesSyncs :: "sales_env list \<Rightarrow> scheduler \<Rightarrow> scheduler" where
  "runSalesSyncs [] s = s"
| "runSalesSyncs (env # envs) s = runSalesSyncs envs (snd (runSalesSync env s))"

fun runRegistrationSyncs :: "registration_env list \<Rightarrow> scheduler \<Rightarrow> scheduler" where
  "runRegistrationSyncs [] s = s"
| "runRegistrationSyncs (env # envs) s = runRegistrationSyncs envs (snd (runRegistrationSync env s))"

text \<open>The call of the posting pipeline for sales, as it shows among the events.\<close>

fun isAutoPostSales :: "event \<Rightarrow> bool" where
  "isAutoPostSales (AutoPostSales recs st) = True"
| "isAutoPostSales _ = False"

definition pipelineInvoked :: "event list \<Rightarrow> bool" where
  "pipelineInvoked es = list_ex isAutoPostSales es"

text \<open>
  Every call of \<open>stop\<close> writes one of two log lines, and when a job existed it also
  stops that job and saves the disabled flag; \<open>stopTrace\<close> recognises these events.
\<close>

fun stopTrace :: "event \<Rightarrow> bool" where
  "stopTrace (JobStop c) = True"
| "stopTrace (SetSystemState k v) = True"
| "stopTrace (Log l m) =
     (m = ''Scheduler stopped - both sales and registration processing halted''
      \<or> m = ''Scheduler was not running'')"
| "stopTrace _ = False"

definition persistsDisabled :: "event list \<Rightarrow> bool" where
  "persistsDisabled es = (SetSystemState ''scheduler_enabled'' ''false'' \<in> set es)"

text \<open>
  Sample inputs: a sync whose first collaborator call throws an \<open>Error\<close>; one where
  that call rejects with \<open>undefined\<close> (as \<open>Promise.reject()\<close> does); a fetch of
  three new records with posting enabled in the settings but switched off globally; a
  registration sync whose database call throws.
\<close>

definition nullishSalesEnv :: sales_env where
  "nullishSalesEnv =
     \<lparr> startTime = 1000,
       refreshTimeCache_result = Inl JsNullish,
       processNewSales_result = Inl (JsError ''unused''),
       getSettings_result = Inl (JsError ''unused''),
       isAutoPostingEnabled_result = True,
       autoPostSales_result = Inl (JsError ''unused'') \<rparr>"

definition failingSalesEnv :: sales_env where
  "failingSalesEnv =
     \<lparr> startTime = 1000,
       refreshTimeCache_result = Inl (JsError ''NTP unreachable''),
       processNewSales_result = Inl (JsError ''unused''),
       getSettings_result = Inl (JsError ''unused''),
       isAutoPostingEnabled_result = True,
       autoPostSales_result = Inl (JsError ''unused'') \<rparr>"

definition threeNewSales :: sales_result where
  "threeNewSales =
     \<lparr> fetched = 5, newSales = 3, duplicates = 2, errors = 0, processedSales = [1, 2, 3] \<rparr>"

definition toggledOffSalesEnv :: sales_env where
  "toggledOffSalesEnv =
     \<lparr> startTime = 2000,
       refreshTimeCache_result = Inr (),
       processNewSales_result = Inr threeNewSales,
       getSettings_result = Inr \<lparr> enabled = True, registrationsEnabled = True \<rparr>,
       isAutoPostingEnabled_result = False,
       autoPostSales_result = Inr [] \<rparr>"

definition failingRegistrationEnv :: registration_env where
  "failingRegistrationEnv =
     \<lparr> getUnpostedRegistrations_result = Inl (JsError ''database locked''),
       getRegistrationSettings_result = Inl (JsError ''unused''),
       isRegistrationPostingEnabled_result = True,
       autoPostRegistrations_result = Inl (JsError ''unused'') \<rparr>"

text \<open>
  A host zone that leaves daylight saving time at 2025-11-02T06:00:00Z (time value
  1762063200000), going from four to five hours behind UTC, as America/New_York does.
  Local time values below 02:00 of that day are read with the earlier offset, as the
  language definition asks for repeated local times. \<open>fixedZone\<close> is a zone without
  transitions.
\<close>

definition fallBackZone :: zone where
  "fallBackZone =
     \<lparr> offsetAtUTC = (\<lambda>t. if t < 1762063200000 then - 14400000 else - 18000000),
       offsetAtLocal = (\<lambda>t. if t < 1762063200000 - 14400000 then - 14400000 else - 18000000) \<rparr>"

definition fixedZone :: "int \<Rightarrow> zone" where
  "fixedZone off = \<lparr> offsetAtUTC = (\<lambda>t. off), offsetAtLocal = (\<lambda>t. off) \<rparr>"

section \<open>Basic facts about the operations\<close>

text \<open>What each operation does to each field; the unfolding rule of the loop is used by hand.\<close>

declare upcomingLoop.simps [simp del]

lemma emit_fields [simp]:
  "salesSyncJob (emit e s) = salesSyncJob s"
  "registrationSyncJob (emit e s) = registrationSyncJob s"
  "isRunning (emit e s) = isRunning s"
  "lastRunTime (emit e s) = lastRunTime s"
  "lastRunStats (emit e s) = lastRunStats s"
  "consecutiveErrors (emit e s) = consecutiveErrors s"
  "maxConsecutiveErrors (emit e s) = maxConsecutiveErrors s"
  "effects (emit e s) = effects s @ [e]"
  by (simp_all add: emit_def)

lemma logger_fields [simp]:
  "salesSyncJob (logger l m s) = salesSyncJob s"
  "registrationSyncJob (logger l m s) = registrationSyncJob s"
  "isRunning (logger l m s) = isRunning s"
  "lastRunTime (logger l m s) = lastRunTime s"
  "lastRunStats (logger l m s) = lastRunStats s"
  "consecutiveErrors (logger l m s) = consecutiveErrors s"
  "maxConsecutiveErrors (logger l m s) = maxConsecutiveErrors s"
  "effects (logger l m s) = effects s @ [Log l m]"
  by (simp_all add: logger_def)

lemma saveSchedulerState_fields [simp]:
  "salesSyncJob (saveSchedulerState b s) = salesSyncJob s"
  "registrationSyncJob (saveSchedulerState b s) = registrationSyncJob s"
  "isRunning (saveSchedulerState b s) = isRunning s"
  "lastRunTime (saveSchedulerState b s) = lastRunTime s"
  "lastRunStats (saveSchedulerState b s) = lastRunStats s"
  "consecutiveErrors (saveSchedulerState b s) = consecutiveErrors s"
  "maxConsecutiveErrors (saveSchedulerState b s) = maxConsecutiveErrors s"
  "effects (saveSchedulerState b s) =
     effects s @ [SetSystemState ''scheduler_enabled'' (if b then ''true'' else ''false'')]"
  by (simp_all add: saveSchedulerState_def)

lemma stopSalesJob_fields [simp]:
  "salesSyncJob (stopSalesJob s) = None"
  "registrationSyncJob (stopSalesJob s) = registrationSyncJob s"
  "isRunning (stopSalesJob s) = isRunning s"
  "lastRunTime (stopSalesJob s) = lastRunTime s"
  "lastRunStats (stopSalesJob s) = lastRunStats s"
  "consecutiveErrors (stopSalesJob s) = consecutiveErrors s"
  "maxConsecutiveErrors (stopSalesJob s) = maxConsecutiveErrors s"
  "effects (stopSalesJob s) =
     effects s @ (case salesSyncJob s of None \<Rightarrow> [] | Some j \<Rightarrow> [JobStop (cronTime j)])"
  by (simp_all add: stopSalesJob_def split: option.split)

lemma stopRegistrationJob_fields [simp]:
  "salesSyncJob (stopRegistrationJob s) = salesSyncJob s"
  "registrationSyncJob (stopRegistrationJob s) = None"
  "isRunning (stopRegistrationJob s) = isRunning s"
  "lastRunTime (stopRegistrationJob s) = lastRunTime s"
  "lastRunStats (stopRegistrationJob s) = lastRunStats s"
  "consecutiveErrors (stopRegistrationJob s) = consecutiveErrors s"
  "maxConsecutiveErrors (stopRegistrationJob s) = maxConsecutiveErrors s"
  "effects (stopRegistrationJob s) =
     effects s @ (case registrationSyncJob s of None \<Rightarrow> [] | Some j \<Rightarrow> [JobStop (cronTime j)])"
  by (simp_all add: stopRegistrationJob_def split: option.split)

lemma stop_fields [simp]:
  "salesSyncJob (stop s) = None"
  "registrationSyncJob (stop s) = None"
  "isRunning (stop s) = (isRunning s \<and> salesSyncJob s = None \<and> registrationSyncJob s = None)"
  "lastRunTime (stop s) = lastRunTime s"
  "lastRunStats (stop s) = lastRunStats s"
  "consecutiveErrors (stop s) = consecutiveErrors s"
  "maxConsecutiveErrors (stop s) = maxConsecutiveErrors s"
  by (auto simp add: stop_def Let_def)

lemma stop_effects:
  "effects (stop s) =
     effects s
     @ (case salesSyncJob s of None \<Rightarrow> [] | Some j \<Rightarrow> [JobStop (cronTime j)])
     @ (case registrationSyncJob s of None \<Rightarrow> [] | Some j \<Rightarrow> [JobStop (cronTime j)])
     @ (if salesSyncJob s \<noteq> None \<or> registrationSyncJob s \<noteq> None
        then [SetSystemState ''scheduler_enabled'' ''false'',
              Log Info ''Scheduler stopped - both sales and registration processing halted'']
        else [Log Info ''Scheduler was not running''])"
  by (simp add: stop_def Let_def)

lemma stop_idle:
  "salesSyncJob s = None \<Longrightarrow> registrationSyncJob s = None \<Longrightarrow>
   stop s = logger Info ''Scheduler was not running'' s"
  by (simp add: stop_def Let_def stopSalesJob_def stopRegistrationJob_def)

lemma forceStop_fields [simp]:
  "salesSyncJob (forceStop s) = None"
  "registrationSyncJob (forceStop s) = None"
  "isRunning (forceStop s) = False"
  "lastRunTime (forceStop s) = lastRunTime s"
  "lastRunStats (forceStop s) = lastRunStats s"
  "consecutiveErrors (forceStop s) = consecutiveErrors s"
  "maxConsecutiveErrors (forceStop s) = maxConsecutiveErrors s"
  by (simp_all add: forceStop_def)

lemma start_fields [simp]:
  "salesSyncJob (start s) = Some ((newCronJob ''0 */5 * * * *'')\<lparr>running := True\<rparr>)"
  "registrationSyncJob (start s) = Some ((newCronJob ''0 * * * * *'')\<lparr>running := True\<rparr>)"
  "isRunning (start s) = True"
  "lastRunTime (start s) = lastRunTime s"
  "lastRunStats (start s) = lastRunStats s"
  "consecutiveErrors (start s) = consecutiveErrors s"
  "maxConsecutiveErrors (start s) = maxConsecutiveErrors s"
  by (simp_all add: start_def Let_def)

lemma resetErrorCounter_fields [simp]:
  "salesSyncJob (resetErrorCounter s) = salesSyncJob s"
  "registrationSyncJob (resetErrorCounter s) = registrationSyncJob s"
  "isRunning (resetErrorCounter s) = isRunning s"
  "consecutiveErrors (resetErrorCounter s) = 0"
  by (simp_all add: resetErrorCounter_def)


lemma salesSyncTry_fst: "fst (salesSyncTry env s) = salesSyncOutcome env"
  by (simp add: salesSyncTry_def salesSyncOutcome_def Let_def split: sum.split)

lemma salesSyncTry_fields [simp]:
  "salesSyncJob (snd (salesSyncTry env s)) = salesSyncJob s"
  "registrationSyncJob (snd (salesSyncTry env s)) = registrationSyncJob s"
  "isRunning (snd (salesSyncTry env s)) = isRunning s"
  "lastRunTime (snd (salesSyncTry env s)) = lastRunTime s"
  "lastRunStats (snd (salesSyncTry env s)) = lastRunStats s"
  "consecutiveErrors (snd (salesSyncTry env s)) = consecutiveErrors s"
  "maxConsecutiveErrors (snd (salesSyncTry env s)) = maxConsecutiveErrors s"
  by (simp_all add: salesSyncTry_def Let_def split: sum.split)

lemma salesSyncSucceeded_fields [simp]:
  "salesSyncJob (salesSyncSucceeded t r rs s) = salesSyncJob s"
  "registrationSyncJob (salesSyncSucceeded t r rs s) = registrationSyncJob s"
  "isRunning (salesSyncSucceeded t r rs s) = isRunning s"
  "lastRunTime (salesSyncSucceeded t r rs s) = Some t"
  "lastRunStats (salesSyncSucceeded t r rs s) = Some (SalesStats r rs)"
  "consecutiveErrors (salesSyncSucceeded t r rs s) = 0"
  "maxConsecutiveErrors (salesSyncSucceeded t r rs s) = maxConsecutiveErrors s"
  by (simp_all add: salesSyncSucceeded_def Let_def)

lemma salesSyncFailed_fields [simp]:
  "salesSyncJob (snd (salesSyncFailed e s)) =
     (if e \<noteq> JsNullish \<and> maxConsecutiveErrors s \<le> consecutiveErrors s + 1
      then None else salesSyncJob s)"
  "registrationSyncJob (snd (salesSyncFailed e s)) =
     (if e \<noteq> JsNullish \<and> maxConsecutiveErrors s \<le> consecutiveErrors s + 1
      then None else registrationSyncJob s)"
  "isRunning (snd (salesSyncFailed e s)) =
     (if e \<noteq> JsNullish \<and> maxConsecutiveErrors s \<le> consecutiveErrors s + 1
      then isRunning s \<and> salesSyncJob s = None \<and> registrationSyncJob s = None
      else isRunning s)"
  "lastRunTime (snd (salesSyncFailed e s)) = lastRunTime s"
  "lastRunStats (snd (salesSyncFailed e s)) =
     (case readMessage e of
        Inl thrown \<Rightarrow> lastRunStats s
      | Inr msg \<Rightarrow> Some (FailureStats msg (consecutiveErrors s + 1)))"
  "consecutiveErrors (snd (salesSyncFailed e s)) = consecutiveErrors s + 1"
  "maxConsecutiveErrors (snd (salesSyncFailed e s)) = maxConsecutiveErrors s"
  "fst (salesSyncFailed e s) = (if e = JsNullish then Some typeError else None)"
  by (cases e; simp add: salesSyncFailed_def Let_def)+

lemma salesSyncFailed_nullish:
  "salesSyncFailed JsNullish s = (Some typeError, s\<lparr>consecutiveErrors := consecutiveErrors s + 1\<rparr>)"
  by (simp add: salesSyncFailed_def Let_def)

lemma runSalesSync_cases:
  "runSalesSync env s =
     (if \<not> isRunning s then (None, logger Debug ''Skipping sales sync - scheduler is stopped'' s)
      else case salesSyncOutcome env of
             Inr (result, rs) \<Rightarrow>
               (None, salesSyncSucceeded (startTime env) result rs
                 (snd (salesSyncTry env (logger Info ''Starting sales sync...'' s))))
           | Inl e \<Rightarrow>
               salesSyncFailed e (snd (salesSyncTry env (logger Info ''Starting sales sync...'' s))))"
proof -
  obtain r s' where p: "salesSyncTry env (logger Info ''Starting sales sync...'' s) = (r, s')"
    by (cases "salesSyncTry env (logger Info ''Starting sales sync...'' s)")
  then have "r = salesSyncOutcome env"
    using salesSyncTry_fst [of env "logger Info ''Starting sales sync...'' s"] by simp
  with p show ?thesis
    by (simp add: runSalesSync_def split: sum.split prod.split)
qed

lemma bothActive_cong:
  "salesSyncJob t = salesSyncJob s \<Longrightarrow> registrationSyncJob t = registrationSyncJob s \<Longrightarrow>
   bothActive t = bothActive s"
  by (simp add: bothActive_def)

lemma bothActive_None [simp]:
  "salesSyncJob s = None \<Longrightarrow> bothActive s = False"
  "registrationSyncJob s = None \<Longrightarrow> bothActive s = False"
  by (simp_all add: bothActive_def split: option.split)

lemma stateInvariant_frame:
  "stateInvariant s \<Longrightarrow> salesSyncJob t = salesSyncJob s \<Longrightarrow>
   registrationSyncJob t = registrationSyncJob s \<Longrightarrow> isRunning t = isRunning s \<Longrightarrow>
   stateInvariant t"
  by (simp add: stateInvariant_def bothActive_def)

lemma stateInvariant_initial: "stateInvariant initial"
  by (simp add: stateInvariant_def bothActive_def initial_def)

lemma stateInvariant_start: "stateInvariant (start s)"
  by (simp add: stateInvariant_def bothActive_def newCronJob_def)

lemma stateInvariant_stop: "stateInvariant s \<Longrightarrow> stateInvariant (stop s)"
  by (auto simp add: stateInvariant_def)

lemma stateInvariant_forceStop: "stateInvariant (forceStop s)"
  by (simp add: stateInvariant_def)

lemma stateInvariant_resetErrorCounter:
  "stateInvariant s \<Longrightarrow> stateInvariant (resetErrorCounter s)"
  by (erule stateInvariant_frame) simp_all

lemma stateInvariant_initializeFromDatabase:
  "stateInvariant s \<Longrightarrow> stateInvariant (snd (initializeFromDatabase saved s))"
proof (cases saved)
  case (Inl e)
  assume "stateInvariant s"
  then show ?thesis
    by (rule stateInvariant_frame)
       (cases e; simp add: initializeFromDatabase_def Let_def Inl)+
next
  case (Inr savedState)
  assume inv: "stateInvariant s"
  show ?thesis
  proof (cases "savedState = Some ''true''")
    case True
    with Inr show ?thesis
      by (simp add: initializeFromDatabase_def Let_def stateInvariant_start)
  next
    case False
    from inv show ?thesis
      by (rule stateInvariant_frame) (simp_all add: initializeFromDatabase_def Let_def Inr False)
  qed
qed

lemma stateInvariant_salesSyncSucceeded:
  "stateInvariant s \<Longrightarrow> stateInvariant (salesSyncSucceeded t r rs s)"
  by (erule stateInvariant_frame) simp_all

lemma stateInvariant_salesSyncFailed:
  assumes "stateInvariant s"
  shows "stateInvariant (snd (salesSyncFailed e s))"
proof (cases "e \<noteq> JsNullish \<and> maxConsecutiveErrors s \<le> consecutiveErrors s + 1")
  case True
  then show ?thesis using assms by (auto simp add: stateInvariant_def)
next
  case False
  from assms show ?thesis
    by (rule stateInvariant_frame) (use False in auto)
qed

lemma stateInvariant_runSalesSync:
  assumes "stateInvariant s"
  shows "stateInvariant (snd (runSalesSync env s))"
proof -
  let ?s' = "snd (salesSyncTry env (logger Info ''Starting sales sync...'' s))"
  have "stateInvariant ?s'"
    using assms by (rule stateInvariant_frame) simp_all
  moreover have "stateInvariant (logger Debug ''Skipping sales sync - scheduler is stopped'' s)"
    using assms by (rule stateInvariant_frame) simp_all
  ultimately show ?thesis
    by (simp add: runSalesSync_cases stateInvariant_salesSyncSucceeded
          stateInvariant_salesSyncFailed split: sum.split prod.split)
qed

lemma salesSyncTry_effects:
  "effects (snd (salesSyncTry env s)) = effects s @ effects (snd (salesSyncTry env initial))"
  by (simp add: salesSyncTry_def Let_def initial_def split: sum.split)

lemma salesSyncTry_no_stop:
  "\<not> list_ex stopTrace (effects (snd (salesSyncTry env initial)))"
  by (simp add: salesSyncTry_def Let_def initial_def split: sum.split)

lemma bothActive_start: "bothActive (start s)"
  by (simp add: bothActive_def newCronJob_def)

section \<open>The consecutive-error trip-wire\<close>

lemma bothActive_jobs:
  "bothActive s \<Longrightarrow> salesSyncJob s \<noteq> None \<and> registrationSyncJob s \<noteq> None"
  by (auto simp add: bothActive_def split: option.splits)

lemma runSalesSync_skipped:
  "\<not> isRunning s \<Longrightarrow>
   runSalesSync env s = (None, logger Debug ''Skipping sales sync - scheduler is stopped'' s)"
  by (simp add: runSalesSync_def)

lemma runSalesSync_failed:
  assumes "isRunning s" and "salesSyncOutcome env = Inl e"
  shows "runSalesSync env s =
           salesSyncFailed e (snd (salesSyncTry env (logger Info ''Starting sales sync...'' s)))"
  using assms by (simp add: runSalesSync_cases)

lemma runSalesSync_succeeded:
  assumes "isRunning s" and "salesSyncOutcome env = Inr (result, rs)"
  shows "runSalesSync env s =
           (None, salesSyncSucceeded (startTime env) result rs
             (snd (salesSyncTry env (logger Info ''Starting sales sync...'' s))))"
  using assms by (simp add: runSalesSync_cases)

lemma salesSyncThrows_Inl: "salesSyncThrows env \<Longrightarrow> \<exists>e. salesSyncOutcome env = Inl e"
  by (cases "salesSyncOutcome env") (simp_all add: salesSyncThrows_def)

lemma runSalesSync_failure_counts:
  assumes "isRunning s" and "salesSyncThrows env"
  shows "consecutiveErrors (snd (runSalesSync env s)) = consecutiveErrors s + 1"
    and "maxConsecutiveErrors (snd (runSalesSync env s)) = maxConsecutiveErrors s"
    and "consecutiveErrors s + 1 < maxConsecutiveErrors s \<Longrightarrow> isRunning (snd (runSalesSync env s))"
    and "stateInvariant s \<Longrightarrow> \<not> salesSyncThrowsNullish env \<Longrightarrow>
         maxConsecutiveErrors s \<le> consecutiveErrors s + 1 \<Longrightarrow>
         \<not> isRunning (snd (runSalesSync env s))"
proof -
  from assms(2) obtain e where e: "salesSyncOutcome env = Inl e"
    using salesSyncThrows_Inl by blast
  note run = runSalesSync_failed [OF assms(1) e]
  show "consecutiveErrors (snd (runSalesSync env s)) = consecutiveErrors s + 1"
    by (simp add: run)
  show "maxConsecutiveErrors (snd (runSalesSync env s)) = maxConsecutiveErrors s"
    by (simp add: run)
  show "isRunning (snd (runSalesSync env s))" if "consecutiveErrors s + 1 < maxConsecutiveErrors s"
    using that assms(1) by (simp add: run)
  show "\<not> isRunning (snd (runSalesSync env s))"
    if "stateInvariant s" "\<not> salesSyncThrowsNullish env"
      "maxConsecutiveErrors s \<le> consecutiveErrors s + 1"
  proof -
    from that(1) assms(1) have "bothActive s" by (simp add: stateInvariant_def)
    then have "salesSyncJob s \<noteq> None" using bothActive_jobs [of s] by blast
    moreover from that(2) e have "e \<noteq> JsNullish" by (simp add: salesSyncThrowsNullish_def)
    ultimately show ?thesis using that(3) by (simp add: run)
  qed
qed

lemma runSalesSyncs_append:
  "runSalesSyncs (xs @ ys) s = runSalesSyncs ys (runSalesSyncs xs s)"
  by (induction xs arbitrary: s) simp_all

lemma failures_below_threshold:
  assumes "\<forall>env \<in> set envs. salesSyncThrows env"
    and "isRunning s"
    and "consecutiveErrors s + length envs < maxConsecutiveErrors s"
  shows "isRunning (runSalesSyncs envs s)
         \<and> consecutiveErrors (runSalesSyncs envs s) = consecutiveErrors s + length envs
         \<and> maxConsecutiveErrors (runSalesSyncs envs s) = maxConsecutiveErrors s"
  using assms
proof (induction envs arbitrary: s)
  case Nil
  then show ?case by simp
next
  case (Cons env envs)
  then have thr: "salesSyncThrows env" by simp
  let ?s = "snd (runSalesSync env s)"
  have "isRunning ?s"
    using Cons.prems by (intro runSalesSync_failure_counts(3)) simp_all
  moreover have "consecutiveErrors ?s = consecutiveErrors s + 1"
    using Cons.prems(2) thr by (rule runSalesSync_failure_counts(1))
  moreover have "maxConsecutiveErrors ?s = maxConsecutiveErrors s"
    using Cons.prems(2) thr by (rule runSalesSync_failure_counts(2))
  ultimately show ?case
    using Cons.IH [of ?s] Cons.prems by simp
qed

lemma stateInvariant_runSalesSyncs:
  "stateInvariant s \<Longrightarrow> stateInvariant (runSalesSyncs envs s)"
  by (induction envs arbitrary: s) (simp_all add: stateInvariant_runSalesSync)

lemma failures_reach_threshold:
  assumes "\<forall>env \<in> set envs. salesSyncThrows env \<and> \<not> salesSyncThrowsNullish env"
    and "stateInvariant s" and "isRunning s"
    and "envs \<noteq> []"
    and "consecutiveErrors s + length envs = maxConsecutiveErrors s"
  shows "\<not> isRunning (runSalesSyncs envs s)
         \<and> consecutiveErrors (runSalesSyncs envs s) = maxConsecutiveErrors s"
proof -
  from assms(4) obtain xs x where envs: "envs = xs @ [x]"
    by (cases envs rule: rev_cases) auto
  let ?m = "runSalesSyncs xs s"
  have below: "isRunning ?m \<and> consecutiveErrors ?m = consecutiveErrors s + length xs
               \<and> maxConsecutiveErrors ?m = maxConsecutiveErrors s"
    using assms(1,3,5) by (intro failures_below_threshold) (simp_all add: envs)
  have inv: "stateInvariant ?m"
    using assms(2) by (rule stateInvariant_runSalesSyncs)
  have thr: "salesSyncThrows x" "\<not> salesSyncThrowsNullish x"
    using assms(1) by (simp_all add: envs)
  have "\<not> isRunning (snd (runSalesSync x ?m))"
    using below thr inv assms(5) by (intro runSalesSync_failure_counts(4)) (simp_all add: envs)
  moreover have "consecutiveErrors (snd (runSalesSync x ?m)) = consecutiveErrors ?m + 1"
    using below thr by (intro runSalesSync_failure_counts(1)) simp_all
  ultimately show ?thesis
    using below assms(5) by (simp add: envs runSalesSyncs_append)
qed

lemma salesSyncOutcome_failingSalesEnv:
  "salesSyncOutcome failingSalesEnv = Inl (JsError ''NTP unreachable'')"
  by (simp add: salesSyncOutcome_def salesSyncTry_def failingSalesEnv_def Let_def)

lemma salesSyncThrows_failingSalesEnv:
  "salesSyncThrows failingSalesEnv" "\<not> salesSyncThrowsNullish failingSalesEnv"
  by (simp_all add: salesSyncThrows_def salesSyncThrowsNullish_def salesSyncOutcome_failingSalesEnv)

text \<open>
  When the value thrown is not \<open>null\<close> or \<open>undefined\<close>, the trip-wire works as
  described: the handler adds one to the counter and, once the threshold is reached,
  leaves the scheduler stopped with both jobs discarded; five such failures in a row,
  from a running scheduler with counter 0 and threshold 5, end stopped with counter 5.
\<close>

lemma tripwire_for_readable_errors:
  assumes "stateInvariant s"
  shows "consecutiveErrors (snd (salesSyncFailed e s)) = consecutiveErrors s + 1
         \<and> (e \<noteq> JsNullish \<and> maxConsecutiveErrors s \<le> consecutiveErrors s + 1 \<longrightarrow>
              \<not> isRunning (snd (salesSyncFailed e s))
              \<and> salesSyncJob (snd (salesSyncFailed e s)) = None
              \<and> registrationSyncJob (snd (salesSyncFailed e s)) = None)
         \<and> (isRunning s \<and> consecutiveErrors s = 0 \<and> maxConsecutiveErrors s = 5
              \<and> length envs = 5
              \<and> (\<forall>env \<in> set envs. salesSyncThrows env \<and> \<not> salesSyncThrowsNullish env) \<longrightarrow>
              \<not> isRunning (runSalesSyncs envs s)
              \<and> consecutiveErrors (runSalesSyncs envs s) = 5)"
proof (intro conjI impI)
  show "consecutiveErrors (snd (salesSyncFailed e s)) = consecutiveErrors s + 1"
    by simp
next
  assume le: "e \<noteq> JsNullish \<and> maxConsecutiveErrors s \<le> consecutiveErrors s + 1"
  have "isRunning s \<longrightarrow> salesSyncJob s \<noteq> None"
    using assms bothActive_jobs [of s] unfolding stateInvariant_def by blast
  with le show "\<not> isRunning (snd (salesSyncFailed e s))" by simp
  from le show "salesSyncJob (snd (salesSyncFailed e s)) = None" by simp
  from le show "registrationSyncJob (snd (salesSyncFailed e s)) = None" by simp
next
  assume h: "isRunning s \<and> consecutiveErrors s = 0 \<and> maxConsecutiveErrors s = 5
             \<and> length envs = 5
             \<and> (\<forall>env \<in> set envs. salesSyncThrows env \<and> \<not> salesSyncThrowsNullish env)"
  then have ne: "envs \<noteq> []" by auto
  from h have "\<not> isRunning (runSalesSyncs envs s)
         \<and> consecutiveErrors (runSalesSyncs envs s) = maxConsecutiveErrors s"
    using assms ne by (intro failures_reach_threshold) simp_all
  with h show "\<not> isRunning (runSalesSyncs envs s)"
    and "consecutiveErrors (runSalesSyncs envs s) = 5" by simp_all
qed

lemma five_errors_stop_scheduler:
  "\<not> isRunning (runSalesSyncs (replicate 5 failingSalesEnv) (start initial))
   \<and> consecutiveErrors (runSalesSyncs (replicate 5 failingSalesEnv) (start initial)) = 5"
  using tripwire_for_readable_errors [of "start initial" JsOther "replicate 5 failingSalesEnv"]
  by (simp add: stateInvariant_start salesSyncThrows_failingSalesEnv initial_def)

text \<open>A run whose collaborator rejects with \<open>null\<close> or \<open>undefined\<close>.\<close>

lemma salesSyncOutcome_nullishSalesEnv: "salesSyncOutcome nullishSalesEnv = Inl JsNullish"
  by (simp add: salesSyncOutcome_def salesSyncTry_def nullishSalesEnv_def Let_def)

lemma salesSyncThrows_nullishSalesEnv:
  "salesSyncThrows nullishSalesEnv" "salesSyncThrowsNullish nullishSalesEnv"
  by (simp_all add: salesSyncThrows_def salesSyncThrowsNullish_def salesSyncOutcome_nullishSalesEnv)

lemma runSalesSync_nullish:
  assumes "isRunning s" and "salesSyncThrowsNullish env"
  shows "fst (runSalesSync env s) = Some typeError"
    and "consecutiveErrors (snd (runSalesSync env s)) = consecutiveErrors s + 1"
    and "maxConsecutiveErrors (snd (runSalesSync env s)) = maxConsecutiveErrors s"
    and "isRunning (snd (runSalesSync env s))"
    and "salesSyncJob (snd (runSalesSync env s)) = salesSyncJob s"
    and "registrationSyncJob (snd (runSalesSync env s)) = registrationSyncJob s"
    and "lastRunStats (snd (runSalesSync env s)) = lastRunStats s"
    and "effects (snd (runSalesSync env s)) =
           effects s @ Log Info ''Starting sales sync...'' # effects (snd (salesSyncTry env initial))"
proof -
  from assms(2) have e: "salesSyncOutcome env = Inl JsNullish"
    by (simp add: salesSyncThrowsNullish_def)
  note run = runSalesSync_failed [OF assms(1) e]
  show "fst (runSalesSync env s) = Some typeError" by (simp add: run)
  show "consecutiveErrors (snd (runSalesSync env s)) = consecutiveErrors s + 1" by (simp add: run)
  show "maxConsecutiveErrors (snd (runSalesSync env s)) = maxConsecutiveErrors s" by (simp add: run)
  show "isRunning (snd (runSalesSync env s))" using assms(1) by (simp add: run)
  show "salesSyncJob (snd (runSalesSync env s)) = salesSyncJob s" by (simp add: run)
  show "registrationSyncJob (snd (runSalesSync env s)) = registrationSyncJob s" by (simp add: run)
  show "lastRunStats (snd (runSalesSync env s)) = lastRunStats s" by (simp add: run)
  show "effects (snd (runSalesSync env s)) =
           effects s @ Log Info ''Starting sales sync...'' # effects (snd (salesSyncTry env initial))"
    using salesSyncTry_effects [of env "logger Info ''Starting sales sync...'' s"]
    by (simp add: run salesSyncFailed_nullish)
qed

lemma nullish_failures:
  assumes "\<forall>env \<in> set envs. salesSyncThrowsNullish env" and "isRunning s"
  shows "isRunning (runSalesSyncs envs s)
         \<and> consecutiveErrors (runSalesSyncs envs s) = consecutiveErrors s + length envs
         \<and> salesSyncJob (runSalesSyncs envs s) = salesSyncJob s
         \<and> registrationSyncJob (runSalesSyncs envs s) = registrationSyncJob s
         \<and> lastRunStats (runSalesSyncs envs s) = lastRunStats s
         \<and> (\<exists>es. effects (runSalesSyncs envs s) = effects s @ es \<and> \<not> list_ex stopTrace es)"
  using assms
proof (induction envs arbitrary: s)
  case Nil
  then show ?case by simp
next
  case (Cons env envs)
  then have n: "salesSyncThrowsNullish env" by simp
  let ?s = "snd (runSalesSync env s)"
  note one = runSalesSync_nullish [OF Cons.prems(2) n]
  have rest: "isRunning (runSalesSyncs envs ?s)
         \<and> consecutiveErrors (runSalesSyncs envs ?s) = consecutiveErrors ?s + length envs
         \<and> salesSyncJob (runSalesSyncs envs ?s) = salesSyncJob ?s
         \<and> registrationSyncJob (runSalesSyncs envs ?s) = registrationSyncJob ?s
         \<and> lastRunStats (runSalesSyncs envs ?s) = lastRunStats ?s
         \<and> (\<exists>es. effects (runSalesSyncs envs ?s) = effects ?s @ es \<and> \<not> list_ex stopTrace es)"
    using Cons.prems(1) one(4) by (intro Cons.IH) simp_all
  then obtain es where es: "effects (runSalesSyncs envs ?s) = effects ?s @ es"
    "\<not> list_ex stopTrace es" by blast
  have "effects (runSalesSyncs (env # envs) s) =
          effects s @ (Log Info ''Starting sales sync...'' # effects (snd (salesSyncTry env initial)) @ es)"
    by (simp add: es(1) one(8))
  moreover have "\<not> list_ex stopTrace
          (Log Info ''Starting sales sync...'' # effects (snd (salesSyncTry env initial)) @ es)"
    using es(2) salesSyncTry_no_stop [of env] by simp
  ultimately have "\<exists>es. effects (runSalesSyncs (env # envs) s) = effects s @ es
          \<and> \<not> list_ex stopTrace es" by blast
  with rest one show ?case by simp
qed

text \<open>
  Claim C1. Every failed sales sync is to add one to \<open>consecutiveErrors\<close> and to stop
  the scheduler in the same step once the counter has reached the threshold, so that five
  failures in a row leave it stopped with the counter at 5. On a started scheduler (counter
  0, threshold 5), five sales syncs in a row whose first collaborator call rejects with
  \<open>undefined\<close> each add one to the counter and then fail inside the \<open>catch\<close> block,
  on reading \<open>error.message\<close>, before the threshold is tested: the counter is at 5,
  the scheduler is still running with both jobs active, and \<open>stop\<close> was never called.
\<close>

theorem tripwire_missed_on_nullish_rejection:
  "isRunning (start initial) \<and> consecutiveErrors (start initial) = 0
   \<and> maxConsecutiveErrors (start initial) = 5
   \<and> salesSyncThrows nullishSalesEnv
   \<and> fst (runSalesSync nullishSalesEnv (start initial)) = Some typeError
   \<and> consecutiveErrors (runSalesSyncs (replicate 5 nullishSalesEnv) (start initial)) = 5
   \<and> isRunning (runSalesSyncs (replicate 5 nullishSalesEnv) (start initial))
   \<and> bothActive (runSalesSyncs (replicate 5 nullishSalesEnv) (start initial))
   \<and> lastRunStats (runSalesSyncs (replicate 5 nullishSalesEnv) (start initial)) = None
   \<and> \<not> list_ex stopTrace
         (emitted (start initial) (runSalesSyncs (replicate 5 nullishSalesEnv) (start initial)))"
proof -
  let ?s = "runSalesSyncs (replicate 5 nullishSalesEnv) (start initial)"
  have five: "isRunning ?s
         \<and> consecutiveErrors ?s = consecutiveErrors (start initial) + length (replicate 5 nullishSalesEnv)
         \<and> salesSyncJob ?s = salesSyncJob (start initial)
         \<and> registrationSyncJob ?s = registrationSyncJob (start initial)
         \<and> lastRunStats ?s = lastRunStats (start initial)
         \<and> (\<exists>es. effects ?s = effects (start initial) @ es \<and> \<not> list_ex stopTrace es)"
    by (intro nullish_failures) (simp_all add: salesSyncThrows_nullishSalesEnv)
  then obtain es where "effects ?s = effects (start initial) @ es" "\<not> list_ex stopTrace es"
    by blast
  then have "\<not> list_ex stopTrace (emitted (start initial) ?s)"
    by (simp add: emitted_def)
  moreover have "bothActive ?s"
    using five bothActive_start [of initial] bothActive_cong [of ?s "start initial"] by simp
  moreover have "fst (runSalesSync nullishSalesEnv (start initial)) = Some typeError"
    by (intro runSalesSync_nullish) (simp_all add: salesSyncThrows_nullishSalesEnv)
  ultimately show ?thesis
    using five by (simp add: salesSyncThrows_nullishSalesEnv initial_def)
qed

theorem tripwire_missed_on_nullish_rejection_witness:
  "consecutiveErrors (runSalesSyncs (replicate 5 nullishSalesEnv) (start initial)) = 5
   \<and> isRunning (runSalesSyncs (replicate 5 nullishSalesEnv) (start initial))
   \<and> maxConsecutiveErrors (start initial) = 5"
  using tripwire_missed_on_nullish_rejection by blast

section \<open>The registration sync leaves the trip-wire alone\<close>

lemma registrationSyncTry_fields [simp]:
  "salesSyncJob (snd (registrationSyncTry env s)) = salesSyncJob s"
  "registrationSyncJob (snd (registrationSyncTry env s)) = registrationSyncJob s"
  "isRunning (snd (registrationSyncTry env s)) = isRunning s"
  "lastRunTime (snd (registrationSyncTry env s)) = lastRunTime s"
  "lastRunStats (snd (registrationSyncTry env s)) = lastRunStats s"
  "consecutiveErrors (snd (registrationSyncTry env s)) = consecutiveErrors s"
  "maxConsecutiveErrors (snd (registrationSyncTry env s)) = maxConsecutiveErrors s"
  by (simp_all add: registrationSyncTry_def Let_def split: sum.split)

lemma registrationSyncTry_effects:
  "\<exists>es. effects (snd (registrationSyncTry env s)) = effects s @ es \<and> \<not> list_ex stopTrace es"
  by (simp add: registrationSyncTry_def Let_def split: sum.split)

lemma registrationSyncSucceeded_fields [simp]:
  "salesSyncJob (registrationSyncSucceeded u rs s) = salesSyncJob s"
  "registrationSyncJob (registrationSyncSucceeded u rs s) = registrationSyncJob s"
  "isRunning (registrationSyncSucceeded u rs s) = isRunning s"
  "lastRunTime (registrationSyncSucceeded u rs s) = lastRunTime s"
  "lastRunStats (registrationSyncSucceeded u rs s) = lastRunStats s"
  "consecutiveErrors (registrationSyncSucceeded u rs s) = consecutiveErrors s"
  "maxConsecutiveErrors (registrationSyncSucceeded u rs s) = maxConsecutiveErrors s"
  by (simp_all add: registrationSyncSucceeded_def Let_def)

lemma registrationSyncSucceeded_effects:
  "\<exists>es. effects (registrationSyncSucceeded u rs s) = effects s @ es \<and> \<not> list_ex stopTrace es"
  by (simp add: registrationSyncSucceeded_def Let_def)

lemma registrationSyncFailed_fields [simp]:
  "salesSyncJob (snd (registrationSyncFailed e s)) = salesSyncJob s"
  "registrationSyncJob (snd (registrationSyncFailed e s)) = registrationSyncJob s"
  "isRunning (snd (registrationSyncFailed e s)) = isRunning s"
  "lastRunTime (snd (registrationSyncFailed e s)) = lastRunTime s"
  "lastRunStats (snd (registrationSyncFailed e s)) = lastRunStats s"
  "consecutiveErrors (snd (registrationSyncFailed e s)) = consecutiveErrors s"
  "maxConsecutiveErrors (snd (registrationSyncFailed e s)) = maxConsecutiveErrors s"
  "effects (snd (registrationSyncFailed e s)) =
     effects s @ (if e = JsNullish then [] else [Log Error ''Registration sync failed:''])"
  "fst (registrationSyncFailed e s) = (if e = JsNullish then Some typeError else None)"
  by (cases e; simp add: registrationSyncFailed_def)+

lemma runRegistrationSync_fields [simp]:
  "salesSyncJob (snd (runRegistrationSync env s)) = salesSyncJob s"
  "registrationSyncJob (snd (runRegistrationSync env s)) = registrationSyncJob s"
  "isRunning (snd (runRegistrationSync env s)) = isRunning s"
  "lastRunTime (snd (runRegistrationSync env s)) = lastRunTime s"
  "lastRunStats (snd (runRegistrationSync env s)) = lastRunStats s"
  "consecutiveErrors (snd (runRegistrationSync env s)) = consecutiveErrors s"
  "maxConsecutiveErrors (snd (runRegistrationSync env s)) = maxConsecutiveErrors s"
proof -
  obtain r s' where p: "registrationSyncTry env (logger Info ''Starting registration sync...'' s) = (r, s')"
    by (cases "registrationSyncTry env (logger Info ''Starting registration sync...'' s)")
  have s': "salesSyncJob s' = salesSyncJob s" "registrationSyncJob s' = registrationSyncJob s"
    "isRunning s' = isRunning s" "lastRunTime s' = lastRunTime s"
    "lastRunStats s' = lastRunStats s" "consecutiveErrors s' = consecutiveErrors s"
    "maxConsecutiveErrors s' = maxConsecutiveErrors s"
    using registrationSyncTry_fields [of env "logger Info ''Starting registration sync...'' s"]
    by (simp_all add: p)
  show "salesSyncJob (snd (runRegistrationSync env s)) = salesSyncJob s"
    "registrationSyncJob (snd (runRegistrationSync env s)) = registrationSyncJob s"
    "isRunning (snd (runRegistrationSync env s)) = isRunning s"
    "lastRunTime (snd (runRegistrationSync env s)) = lastRunTime s"
    "lastRunStats (snd (runRegistrationSync env s)) = lastRunStats s"
    "consecutiveErrors (snd (runRegistrationSync env s)) = consecutiveErrors s"
    "maxConsecutiveErrors (snd (runRegistrationSync env s)) = maxConsecutiveErrors s"
    by (simp_all add: runRegistrationSync_def p s' split: sum.split prod.split)
qed

lemma runRegistrationSync_effects:
  "\<exists>es. effects (snd (runRegistrationSync env s)) = effects s @ es \<and> \<not> list_ex stopTrace es"
proof (cases "isRunning s")
  case False
  then show ?thesis by (simp add: runRegistrationSync_def)
next
  case True
  let ?s0 = "logger Info ''Starting registration sync...'' s"
  obtain r s' where p: "registrationSyncTry env ?s0 = (r, s')"
    by (cases "registrationSyncTry env ?s0")
  then have s': "snd (registrationSyncTry env ?s0) = s'" by simp
  obtain es where es: "effects s' = effects ?s0 @ es" and nes: "\<not> list_ex stopTrace es"
    using registrationSyncTry_effects [of env ?s0] unfolding s' by blast
  have run: "runRegistrationSync env s =
      (case r of Inr (u, rs) \<Rightarrow> (None, registrationSyncSucceeded u rs s')
               | Inl e \<Rightarrow> registrationSyncFailed e s')"
    using True by (simp add: runRegistrationSync_def p)
  show ?thesis
  proof (cases r)
    case (Inl e)
    let ?l = "if e = JsNullish then [] else [Log Error ''Registration sync failed:'']"
    have "effects (snd (runRegistrationSync env s))
          = effects s @ (Log Info ''Starting registration sync...'' # es @ ?l)"
      by (simp add: run Inl es)
    moreover have "\<not> list_ex stopTrace (Log Info ''Starting registration sync...'' # es @ ?l)"
      using nes by simp
    ultimately show ?thesis by blast
  next
    case (Inr v)
    obtain u rs where v: "v = (u, rs)" by (cases v)
    obtain es' where es': "effects (registrationSyncSucceeded u rs s') = effects s' @ es'"
      and nes': "\<not> list_ex stopTrace es'"
      using registrationSyncSucceeded_effects [of u rs s'] by blast
    have "effects (snd (runRegistrationSync env s))
          = effects s @ (Log Info ''Starting registration sync...'' # es @ es')"
      by (simp add: run Inr v es es')
    moreover have "\<not> list_ex stopTrace (Log Info ''Starting registration sync...'' # es @ es')"
      using nes nes' by simp
    ultimately show ?thesis by blast
  qed
qed

lemma runRegistrationSyncs_fields [simp]:
  "salesSyncJob (runRegistrationSyncs envs s) = salesSyncJob s"
  "registrationSyncJob (runRegistrationSyncs envs s) = registrationSyncJob s"
  "isRunning (runRegistrationSyncs envs s) = isRunning s"
  "lastRunTime (runRegistrationSyncs envs s) = lastRunTime s"
  "lastRunStats (runRegistrationSyncs envs s) = lastRunStats s"
  "consecutiveErrors (runRegistrationSyncs envs s) = consecutiveErrors s"
  "maxConsecutiveErrors (runRegistrationSyncs envs s) = maxConsecutiveErrors s"
  by (induction envs arbitrary: s) simp_all

lemma runRegistrationSyncs_effects:
  "\<exists>es. effects (runRegistrationSyncs envs s) = effects s @ es \<and> \<not> list_ex stopTrace es"
proof (induction envs arbitrary: s)
  case Nil
  show ?case by simp
next
  case (Cons env envs)
  obtain es where es: "effects (snd (runRegistrationSync env s)) = effects s @ es"
    "\<not> list_ex stopTrace es"
    using runRegistrationSync_effects [of env s] by auto
  obtain es' where es': "effects (runRegistrationSyncs envs (snd (runRegistrationSync env s)))
        = effects (snd (runRegistrationSync env s)) @ es'" "\<not> list_ex stopTrace es'"
    using Cons.IH [of "snd (runRegistrationSync env s)"] by auto
  from es es' show ?case by simp
qed

lemma stop_leaves_trace: "list_ex stopTrace (emitted s (stop s))"
  by (simp add: emitted_def stop_effects split: option.split)

lemma registrationSyncThrows_failingRegistrationEnv: "registrationSyncThrows failingRegistrationEnv"
  by (simp add: registrationSyncThrows_def registrationSyncTry_def failingRegistrationEnv_def Let_def)

text \<open>
  Claim C4. Registration syncs that end in an exception, however many in a row, change
  neither \<open>consecutiveErrors\<close> nor \<open>isRunning\<close> and never call \<open>stop\<close>: none
  of the events that a call of \<open>stop\<close> always leaves is among those the runs emit.
  The two jobs stay as they were. (The proof does not use that the runs fail: a
  registration sync that succeeds writes no field either. When the value thrown is
  \<open>null\<close> or \<open>undefined\<close>, the \<open>catch\<close> block itself throws and the promise of
  the run is rejected, still without a field written.) So only the sales sync feeds the
  trip-wire.
\<close>

theorem registration_failures_frame:
  assumes "\<forall>env \<in> set envs. registrationSyncThrows env"
  shows "consecutiveErrors (runRegistrationSyncs envs s) = consecutiveErrors s
         \<and> isRunning (runRegistrationSyncs envs s) = isRunning s
         \<and> salesSyncJob (runRegistrationSyncs envs s) = salesSyncJob s
         \<and> registrationSyncJob (runRegistrationSyncs envs s) = registrationSyncJob s
         \<and> \<not> list_ex stopTrace (emitted s (runRegistrationSyncs envs s))"
proof -
  obtain es where "effects (runRegistrationSyncs envs s) = effects s @ es" "\<not> list_ex stopTrace es"
    using runRegistrationSyncs_effects [of envs s] by auto
  then show ?thesis by (simp add: emitted_def)
qed

theorem registration_failures_frame_witness:
  "list_all registrationSyncThrows (replicate 7 failingRegistrationEnv)
   \<and> isRunning (start initial)
   \<and> consecutiveErrors (runRegistrationSyncs (replicate 7 failingRegistrationEnv) (start initial)) = 0
   \<and> isRunning (runRegistrationSyncs (replicate 7 failingRegistrationEnv) (start initial))
   \<and> salesSyncJob (runRegistrationSyncs (replicate 7 failingRegistrationEnv) (start initial)) \<noteq> None
   \<and> registrationSyncJob (runRegistrationSyncs (replicate 7 failingRegistrationEnv) (start initial)) \<noteq> None
   \<and> \<not> list_ex stopTrace (emitted (start initial)
          (runRegistrationSyncs (replicate 7 failingRegistrationEnv) (start initial)))"
  using registration_failures_frame [of "replicate 7 failingRegistrationEnv" "start initial"]
  by (simp add: registrationSyncThrows_failingRegistrationEnv initial_def list_all_iff)

section \<open>The state invariant\<close>

lemma stateInvariant_runRegistrationSync:
  "stateInvariant s \<Longrightarrow> stateInvariant (snd (runRegistrationSync env s))"
  by (erule stateInvariant_frame) simp_all

lemma manualSyncFailed_fields [simp]:
  "salesSyncJob (snd (manualSyncFailed e s)) = salesSyncJob s"
  "registrationSyncJob (snd (manualSyncFailed e s)) = registrationSyncJob s"
  "isRunning (snd (manualSyncFailed e s)) = isRunning s"
  "lastRunTime (snd (manualSyncFailed e s)) = lastRunTime s"
  "lastRunStats (snd (manualSyncFailed e s)) = lastRunStats s"
  "consecutiveErrors (snd (manualSyncFailed e s)) = consecutiveErrors s"
  "maxConsecutiveErrors (snd (manualSyncFailed e s)) = maxConsecutiveErrors s"
  by (cases e; simp add: manualSyncFailed_def)+

text \<open>
  The fields after a manual trigger are those after its sales sync: neither the
  registration sync nor the \<open>catch\<close> block writes one.
\<close>

lemma triggerManualSync_fields:
  "salesSyncJob (snd (triggerManualSync senv renv s)) =
     salesSyncJob (snd (runSalesSync senv
       (logger Info ''Manual sync triggered - running both sales and registration processing'' s)))"
  "registrationSyncJob (snd (triggerManualSync senv renv s)) =
     registrationSyncJob (snd (runSalesSync senv
       (logger Info ''Manual sync triggered - running both sales and registration processing'' s)))"
  "isRunning (snd (triggerManualSync senv renv s)) =
     isRunning (snd (runSalesSync senv
       (logger Info ''Manual sync triggered - running both sales and registration processing'' s)))"
  "consecutiveErrors (snd (triggerManualSync senv renv s)) =
     consecutiveErrors (snd (runSalesSync senv
       (logger Info ''Manual sync triggered - running both sales and registration processing'' s)))"
  "maxConsecutiveErrors (snd (triggerManualSync senv renv s)) =
     maxConsecutiveErrors (snd (runSalesSync senv
       (logger Info ''Manual sync triggered - running both sales and registration processing'' s)))"
proof -
  let ?s1 = "logger Info ''Manual sync triggered - running both sales and registration processing'' s"
  obtain r2 s2 where a: "runSalesSync senv ?s1 = (r2, s2)"
    by (cases "runSalesSync senv ?s1")
  obtain r3 s3 where b: "runRegistrationSync renv s2 = (r3, s3)"
    by (cases "runRegistrationSync renv s2")
  have s3: "salesSyncJob s3 = salesSyncJob s2" "registrationSyncJob s3 = registrationSyncJob s2"
    "isRunning s3 = isRunning s2" "consecutiveErrors s3 = consecutiveErrors s2"
    "maxConsecutiveErrors s3 = maxConsecutiveErrors s2"
    using runRegistrationSync_fields [of renv s2] by (simp_all add: b)
  show "salesSyncJob (snd (triggerManualSync senv renv s)) = salesSyncJob (snd (runSalesSync senv ?s1))"
    "registrationSyncJob (snd (triggerManualSync senv renv s))
       = registrationSyncJob (snd (runSalesSync senv ?s1))"
    "isRunning (snd (triggerManualSync senv renv s)) = isRunning (snd (runSalesSync senv ?s1))"
    "consecutiveErrors (snd (triggerManualSync senv renv s))
       = consecutiveErrors (snd (runSalesSync senv ?s1))"
    "maxConsecutiveErrors (snd (triggerManualSync senv renv s))
       = maxConsecutiveErrors (snd (runSalesSync senv ?s1))"
    by (cases r2; cases r3; simp add: triggerManualSync_def Let_def a b s3)+
qed

lemma stateInvariant_triggerManualSync:
  assumes "stateInvariant s"
  shows "stateInvariant (snd (triggerManualSync senv renv s))"
proof -
  let ?s1 = "logger Info ''Manual sync triggered - running both sales and registration processing'' s"
  have "stateInvariant ?s1"
    using assms by (rule stateInvariant_frame) simp_all
  then have "stateInvariant (snd (runSalesSync senv ?s1))"
    by (rule stateInvariant_runSalesSync)
  then show ?thesis
    by (rule stateInvariant_frame) (simp_all add: triggerManualSync_fields)
qed

lemma stateInvariant_exec:
  "stateInvariant s \<Longrightarrow> stateInvariant (exec op s)"
  by (cases op)
     (simp_all add: stateInvariant_start stateInvariant_stop stateInvariant_forceStop
        stateInvariant_resetErrorCounter stateInvariant_initializeFromDatabase
        stateInvariant_runSalesSync stateInvariant_runRegistrationSync
        stateInvariant_triggerManualSync)

text \<open>
  Claim C3. The invariant "\<open>isRunning\<close> holds exactly when both jobs exist and are
  active" holds at construction and is preserved by every operation: \<open>start\<close>,
  \<open>stop\<close>, \<open>forceStop\<close>, \<open>resetErrorCounter\<close>, \<open>initializeFromDatabase\<close>,
  the two sync methods and the manual trigger. \<open>start\<close> leaves both jobs created and
  active; \<open>stop\<close> and \<open>forceStop\<close> leave both discarded.
\<close>

theorem state_invariant_preserved:
  assumes "stateInvariant s"
  shows "stateInvariant initial
         \<and> stateInvariant (exec op s)
         \<and> bothActive (start s) \<and> isRunning (start s)
         \<and> salesSyncJob (stop s) = None \<and> registrationSyncJob (stop s) = None
         \<and> \<not> isRunning (stop s)
         \<and> salesSyncJob (forceStop s) = None \<and> registrationSyncJob (forceStop s) = None
         \<and> \<not> isRunning (forceStop s)"
proof -
  have "\<not> isRunning (stop s)"
  proof
    assume "isRunning (stop s)"
    then have "isRunning s" and "salesSyncJob s = None" by simp_all
    with assms show False by (simp add: stateInvariant_def)
  qed
  with assms show ?thesis
    by (simp add: stateInvariant_initial stateInvariant_exec bothActive_start)
qed

theorem state_invariant_preserved_witness:
  "stateInvariant (start initial)
   \<and> stateInvariant (exec (TriggerManualSync failingSalesEnv failingRegistrationEnv) (start initial))
   \<and> bothActive (start (start initial))
   \<and> \<not> isRunning (stop (start initial))
   \<and> \<not> isRunning (forceStop (start initial))"
  using state_invariant_preserved [of "start initial"
      "TriggerManualSync failingSalesEnv failingRegistrationEnv"]
  by (simp add: stateInvariant_start)

section \<open>A successful sales sync\<close>

lemma salesSyncOutcome_toggledOffSalesEnv:
  "salesSyncOutcome toggledOffSalesEnv = Inr (threeNewSales, [])"
  by (simp add: salesSyncOutcome_def salesSyncTry_def toggledOffSalesEnv_def threeNewSales_def Let_def)

lemma three_failures:
  "isRunning (runSalesSyncs (replicate 3 failingSalesEnv) (start initial))
   \<and> consecutiveErrors (runSalesSyncs (replicate 3 failingSalesEnv) (start initial)) = 3"
  using failures_below_threshold [of "replicate 3 failingSalesEnv" "start initial"]
  by (simp add: salesSyncThrows_failingSalesEnv initial_def)

text \<open>
  Claim C5. A sales sync that runs (the scheduler is running) and whose \<open>try\<close> block
  ends without an exception sets \<open>consecutiveErrors\<close> to 0, whatever it was before,
  sets \<open>lastRunTime\<close> to the start of the run and \<open>lastRunStats\<close> to the fetch
  result with the posting outcomes of the run; its promise is fulfilled.
\<close>

theorem successful_sales_run_resets_counter:
  assumes "isRunning s" and "salesSyncOutcome env = Inr (result, autoPostResults)"
  shows "consecutiveErrors (snd (runSalesSync env s)) = 0
         \<and> lastRunTime (snd (runSalesSync env s)) = Some (startTime env)
         \<and> lastRunStats (snd (runSalesSync env s)) = Some (SalesStats result autoPostResults)
         \<and> fst (runSalesSync env s) = None"
  by (simp add: runSalesSync_succeeded [OF assms])

theorem successful_sales_run_resets_counter_witness:
  "isRunning (runSalesSyncs (replicate 3 failingSalesEnv) (start initial))
   \<and> consecutiveErrors (runSalesSyncs (replicate 3 failingSalesEnv) (start initial)) = 3
   \<and> salesSyncOutcome toggledOffSalesEnv = Inr (threeNewSales, [])
   \<and> consecutiveErrors (snd (runSalesSync toggledOffSalesEnv
         (runSalesSyncs (replicate 3 failingSalesEnv) (start initial)))) = 0
   \<and> lastRunTime (snd (runSalesSync toggledOffSalesEnv
         (runSalesSyncs (replicate 3 failingSalesEnv) (start initial)))) = Some 2000
   \<and> lastRunStats (snd (runSalesSync toggledOffSalesEnv
         (runSalesSyncs (replicate 3 failingSalesEnv) (start initial))))
       = Some (SalesStats threeNewSales [])"
  using successful_sales_run_resets_counter
    [of "runSalesSyncs (replicate 3 failingSalesEnv) (start initial)" toggledOffSalesEnv
        threeNewSales "[]"]
    three_failures salesSyncOutcome_toggledOffSalesEnv
  by (simp add: toggledOffSalesEnv_def)

section \<open>Stopping twice\<close>

text \<open>
  Claim C6. A second \<open>stop\<close> right after a \<open>stop\<close> only writes the line
  "Scheduler was not running": every field stays as it is and the disabled flag is not
  saved again. In general \<open>stop\<close> does nothing but log when no job exists, and clears
  \<open>isRunning\<close> and saves the disabled flag when at least one job exists.
\<close>

theorem stop_idempotent:
  "stop (stop s) = logger Info ''Scheduler was not running'' (stop s)
   \<and> isRunning (stop (stop s)) = isRunning (stop s)
   \<and> emitted (stop s) (stop (stop s)) = [Log Info ''Scheduler was not running'']
   \<and> \<not> persistsDisabled (emitted (stop s) (stop (stop s)))
   \<and> (salesSyncJob s = None \<and> registrationSyncJob s = None \<longrightarrow>
        stop s = logger Info ''Scheduler was not running'' s
        \<and> isRunning (stop s) = isRunning s
        \<and> \<not> persistsDisabled (emitted s (stop s)))
   \<and> (salesSyncJob s \<noteq> None \<or> registrationSyncJob s \<noteq> None \<longrightarrow>
        \<not> isRunning (stop s) \<and> persistsDisabled (emitted s (stop s)))"
proof -
  have idle: "stop t = logger Info ''Scheduler was not running'' t"
    if "salesSyncJob t = None" "registrationSyncJob t = None" for t
    using that by (rule stop_idle)
  have twice: "stop (stop s) = logger Info ''Scheduler was not running'' (stop s)"
    by (rule idle) simp_all
  have "emitted (stop s) (stop (stop s)) = [Log Info ''Scheduler was not running'']"
    by (simp add: twice emitted_def)
  moreover have "\<not> persistsDisabled (emitted s (stop s))"
    if "salesSyncJob s = None" "registrationSyncJob s = None"
    by (simp add: idle [OF that] emitted_def persistsDisabled_def)
  moreover have "persistsDisabled (emitted s (stop s))"
    if "salesSyncJob s \<noteq> None \<or> registrationSyncJob s \<noteq> None"
    using that by (auto simp add: stop_effects emitted_def persistsDisabled_def)
  ultimately show ?thesis
    using twice by (auto simp add: idle persistsDisabled_def)
qed

theorem stop_idempotent_witness:
  "salesSyncJob (start initial) \<noteq> None
   \<and> \<not> isRunning (stop (start initial))
   \<and> persistsDisabled (emitted (start initial) (stop (start initial)))
   \<and> salesSyncJob (stop (start initial)) = None
   \<and> registrationSyncJob (stop (start initial)) = None
   \<and> \<not> isRunning (stop (stop (start initial)))
   \<and> \<not> persistsDisabled (emitted (stop (start initial)) (stop (stop (start initial))))
   \<and> emitted (stop (start initial)) (stop (stop (start initial)))
       = [Log Info ''Scheduler was not running'']"
  using stop_idempotent [of "start initial"] stop_idempotent [of "stop (start initial)"]
  by (simp add: persistsDisabled_def)

section \<open>The double switch in front of the posting pipeline\<close>

lemma salesSyncTry_posts:
  assumes "refreshTimeCache_result env = Inr u"
    and "processNewSales_result env = Inr result"
    and "getSettings_result env = Inr st"
  shows "filter isAutoPostSales (effects (snd (salesSyncTry env initial))) =
           (if 0 < newSales result \<and> processedSales result \<noteq> [] \<and> enabled st
               \<and> isAutoPostingEnabled_result env
            then [AutoPostSales (processedSales result) st] else [])"
  by (simp add: salesSyncTry_def Let_def initial_def assms split: sum.split)

lemma salesSyncTry_toggled_off:
  assumes "\<not> isAutoPostingEnabled_result env"
  shows "filter isAutoPostSales (effects (snd (salesSyncTry env initial))) = []"
  by (simp add: salesSyncTry_def Let_def initial_def assms split: sum.split)

lemma salesSyncOutcome_toggled_off:
  assumes "refreshTimeCache_result env = Inr u"
    and "processNewSales_result env = Inr result"
    and "getSettings_result env = Inr st"
    and "\<not> isAutoPostingEnabled_result env"
  shows "salesSyncOutcome env = Inr (result, [])"
  by (simp add: salesSyncOutcome_def salesSyncTry_def Let_def assms)

lemma salesSyncSucceeded_effects:
  "\<exists>es. effects (salesSyncSucceeded t r rs s) = effects s @ es \<and> filter isAutoPostSales es = []"
  by (simp add: salesSyncSucceeded_def Let_def)

lemma salesSyncFailed_effects:
  "\<exists>es. effects (snd (salesSyncFailed e s)) = effects s @ es \<and> filter isAutoPostSales es = []"
  by (cases e) (simp_all add: salesSyncFailed_def Let_def stop_effects split: option.split)

lemma runSalesSync_posts:
  "filter isAutoPostSales (emitted s (snd (runSalesSync env s))) =
     (if isRunning s then filter isAutoPostSales (effects (snd (salesSyncTry env initial))) else [])"
proof (cases "isRunning s")
  case False
  then show ?thesis by (simp add: runSalesSync_skipped emitted_def)
next
  case True
  let ?s0 = "logger Info ''Starting sales sync...'' s"
  let ?s1 = "snd (salesSyncTry env ?s0)"
  let ?evs = "effects (snd (salesSyncTry env initial))"
  have s1: "effects ?s1 = effects s @ Log Info ''Starting sales sync...'' # ?evs"
    using salesSyncTry_effects [of env ?s0] by simp
  show ?thesis
  proof (cases "salesSyncOutcome env")
    case (Inl e)
    obtain es where es: "effects (snd (salesSyncFailed e ?s1)) = effects ?s1 @ es"
      "filter isAutoPostSales es = []"
      using salesSyncFailed_effects [of e ?s1] by blast
    have "emitted s (snd (runSalesSync env s)) = Log Info ''Starting sales sync...'' # ?evs @ es"
      by (simp add: runSalesSync_failed [OF True Inl] emitted_def es(1) s1)
    with es(2) True show ?thesis by simp
  next
    case (Inr v)
    obtain result rs where v: "v = (result, rs)" by (cases v)
    obtain es where es: "effects (salesSyncSucceeded (startTime env) result rs ?s1) = effects ?s1 @ es"
      "filter isAutoPostSales es = []"
      using salesSyncSucceeded_effects [of "startTime env" result rs ?s1] by blast
    have out: "salesSyncOutcome env = Inr (result, rs)" using Inr v by simp
    have "emitted s (snd (runSalesSync env s)) = Log Info ''Starting sales sync...'' # ?evs @ es"
      by (simp add: runSalesSync_succeeded [OF True out] emitted_def es(1) s1)
    with es(2) True show ?thesis by simp
  qed
qed

lemma pipelineInvoked_filter: "pipelineInvoked es = (filter isAutoPostSales es \<noteq> [])"
  by (induction es) (simp_all add: pipelineInvoked_def)

text \<open>
  Claim C2. In a sales sync that runs and gets its fetch result and the settings, the
  posting pipeline is called exactly when the fetch result has \<open>newSales > 0\<close> and a
  non-empty list of records, the settings have \<open>enabled\<close>, and the global toggle
  \<open>isAutoPostingEnabled\<close> is on; it is then called once, with the new records and the
  settings. With the global toggle off the pipeline is not called in any run, and the
  run statistics are the fetch result (with its \<open>newSales\<close>) and no posting outcomes.
\<close>

theorem sales_posting_double_switch:
  "(\<not> isAutoPostingEnabled_result env \<longrightarrow> \<not> pipelineInvoked (emitted s (snd (runSalesSync env s))))
   \<and> (isRunning s \<and> refreshTimeCache_result env = Inr u
        \<and> processNewSales_result env = Inr result \<and> getSettings_result env = Inr st \<longrightarrow>
        pipelineInvoked (emitted s (snd (runSalesSync env s)))
          = (0 < newSales result \<and> processedSales result \<noteq> [] \<and> enabled st
             \<and> isAutoPostingEnabled_result env)
        \<and> filter isAutoPostSales (emitted s (snd (runSalesSync env s)))
          = (if 0 < newSales result \<and> processedSales result \<noteq> [] \<and> enabled st
                \<and> isAutoPostingEnabled_result env
             then [AutoPostSales (processedSales result) st] else [])
        \<and> (\<not> isAutoPostingEnabled_result env \<longrightarrow>
             lastRunStats (snd (runSalesSync env s)) = Some (SalesStats result [])))"
proof (intro conjI impI)
  assume "\<not> isAutoPostingEnabled_result env"
  then show "\<not> pipelineInvoked (emitted s (snd (runSalesSync env s)))"
    by (simp add: pipelineInvoked_filter runSalesSync_posts salesSyncTry_toggled_off)
next
  assume h: "isRunning s \<and> refreshTimeCache_result env = Inr u
        \<and> processNewSales_result env = Inr result \<and> getSettings_result env = Inr st"
  then have posts: "filter isAutoPostSales (effects (snd (salesSyncTry env initial))) =
           (if 0 < newSales result \<and> processedSales result \<noteq> [] \<and> enabled st
               \<and> isAutoPostingEnabled_result env
            then [AutoPostSales (processedSales result) st] else [])"
    by (intro salesSyncTry_posts) simp_all
  from h posts
  show "filter isAutoPostSales (emitted s (snd (runSalesSync env s)))
          = (if 0 < newSales result \<and> processedSales result \<noteq> [] \<and> enabled st
                \<and> isAutoPostingEnabled_result env
             then [AutoPostSales (processedSales result) st] else [])"
    by (simp add: runSalesSync_posts)
  then show "pipelineInvoked (emitted s (snd (runSalesSync env s)))
          = (0 < newSales result \<and> processedSales result \<noteq> [] \<and> enabled st
             \<and> isAutoPostingEnabled_result env)"
    by (simp add: pipelineInvoked_filter)
next
  assume h: "isRunning s \<and> refreshTimeCache_result env = Inr u
        \<and> processNewSales_result env = Inr result \<and> getSettings_result env = Inr st"
    and off: "\<not> isAutoPostingEnabled_result env"
  then have "salesSyncOutcome env = Inr (result, [])"
    by (intro salesSyncOutcome_toggled_off) simp_all
  with h show "lastRunStats (snd (runSalesSync env s)) = Some (SalesStats result [])"
    by (simp add: runSalesSync_succeeded)
qed

theorem sales_posting_double_switch_witness:
  "\<not> isAutoPostingEnabled_result toggledOffSalesEnv
   \<and> isRunning (start initial)
   \<and> refreshTimeCache_result toggledOffSalesEnv = Inr ()
   \<and> processNewSales_result toggledOffSalesEnv = Inr threeNewSales
   \<and> getSettings_result toggledOffSalesEnv = Inr \<lparr> enabled = True, registrationsEnabled = True \<rparr>
   \<and> newSales threeNewSales = 3
   \<and> \<not> pipelineInvoked (emitted (start initial) (snd (runSalesSync toggledOffSalesEnv (start initial))))
   \<and> lastRunStats (snd (runSalesSync toggledOffSalesEnv (start initial)))
       = Some (SalesStats threeNewSales [])
   \<and> pipelineInvoked (emitted (start initial)
        (snd (runSalesSync (toggledOffSalesEnv\<lparr>isAutoPostingEnabled_result := True\<rparr>) (start initial))))
   \<and> filter isAutoPostSales (emitted (start initial)
        (snd (runSalesSync (toggledOffSalesEnv\<lparr>isAutoPostingEnabled_result := True\<rparr>) (start initial))))
       = [AutoPostSales [1, 2, 3] \<lparr> enabled = True, registrationsEnabled = True \<rparr>]"
  using sales_posting_double_switch [of toggledOffSalesEnv "start initial" "()" threeNewSales
      "\<lparr> enabled = True, registrationsEnabled = True \<rparr>"]
    sales_posting_double_switch [of "toggledOffSalesEnv\<lparr>isAutoPostingEnabled_result := True\<rparr>"
      "start initial" "()" threeNewSales "\<lparr> enabled = True, registrationsEnabled = True \<rparr>"]
  by (simp add: toggledOffSalesEnv_def threeNewSales_def)

section \<open>Status and upcoming runs\<close>

text \<open>
  Claim C8. \<open>nextRunTime\<close> of the status is the earlier of the next sales run and the
  next registration run when both jobs exist, the one that exists when only one does, and
  \<open>null\<close> when neither does.
\<close>

theorem nextRunTime_is_earlier:
  "status_nextSalesRunTime (getStatus nextDate now s) = map_option nextDate (salesSyncJob s)
   \<and> status_nextRegistrationRunTime (getStatus nextDate now s)
       = map_option nextDate (registrationSyncJob s)
   \<and> status_nextRunTime (getStatus nextDate now s) =
       (case (status_nextSalesRunTime (getStatus nextDate now s),
              status_nextRegistrationRunTime (getStatus nextDate now s)) of
          (Some a, Some b) \<Rightarrow> Some (min a b)
        | (Some a, None) \<Rightarrow> Some a
        | (None, Some b) \<Rightarrow> Some b
        | (None, None) \<Rightarrow> None)"
  by (simp add: getStatus_def Let_def min_def split: option.split)

theorem nextRunTime_is_earlier_witness:
  "status_nextRunTime (getStatus (\<lambda>j. if cronTime j = ''0 * * * * *'' then 60000 else 300000)
      12345 (start initial)) = Some 60000
   \<and> status_nextRunTime (getStatus (\<lambda>j. 300000) 12345 initial) = None"
  using nextRunTime_is_earlier [of "\<lambda>j. if cronTime j = ''0 * * * * *'' then 60000 else 300000"
      12345 "start initial"]
    nextRunTime_is_earlier [of "\<lambda>j. 300000" 12345 initial]
  by (simp add: newCronJob_def initial_def)

text \<open>
  Claim C10. When either job is missing, \<open>getUpcomingRuns\<close> returns two empty lists
  for every count, also when the other job exists. That is the case for a new scheduler
  and after \<open>stop\<close> or \<open>forceStop\<close>.
\<close>

theorem upcoming_runs_empty_without_job:
  assumes "salesSyncJob s = None \<or> registrationSyncJob s = None"
  shows "getUpcomingRuns z nextDate count s = \<lparr> sales = [], registrations = [] \<rparr>
         \<and> getUpcomingRuns z nextDate count initial = \<lparr> sales = [], registrations = [] \<rparr>
         \<and> getUpcomingRuns z nextDate count (stop t) = \<lparr> sales = [], registrations = [] \<rparr>
         \<and> getUpcomingRuns z nextDate count (forceStop t) = \<lparr> sales = [], registrations = [] \<rparr>"
  using assms by (auto simp add: getUpcomingRuns_def initial_def split: option.split)

theorem upcoming_runs_empty_without_job_witness:
  "salesSyncJob initial = None
   \<and> getUpcomingRuns fallBackZone (\<lambda>j. 1762062900000) 3 initial = \<lparr> sales = [], registrations = [] \<rparr>
   \<and> registrationSyncJob ((start initial)\<lparr>registrationSyncJob := None\<rparr>) = None
   \<and> salesSyncJob ((start initial)\<lparr>registrationSyncJob := None\<rparr>) \<noteq> None
   \<and> getUpcomingRuns fallBackZone (\<lambda>j. 1762062900000) 3
         ((start initial)\<lparr>registrationSyncJob := None\<rparr>) = \<lparr> sales = [], registrations = [] \<rparr>"
  using upcoming_runs_empty_without_job [of initial fallBackZone "\<lambda>j. 1762062900000" 3]
    upcoming_runs_empty_without_job [of "(start initial)\<lparr>registrationSyncJob := None\<rparr>"
      fallBackZone "\<lambda>j. 1762062900000" 3]
  by (simp add: initial_def)

section \<open>Projected runs and the local time of the host\<close>

text \<open>
  Moving the minutes of a \<open>Date\<close> by \<open>k\<close> moves its local time by \<open>k\<close> minutes;
  the time value moves by as much only if the zone offset is the same at both ends. In a
  zone without transitions \<open>getUpcomingRuns\<close> therefore returns the next date of each
  job plus multiples of five minutes, respectively one minute.
\<close>

lemma local_time_parts:
  "MakeDate (Day t) (MakeTime (HourFromTime t) (MinFromTime t + k) (SecFromTime t) (msFromTime t))
     = t + k * msPerMinute"
proof -
  define ms where "ms = t mod 1000"
  define secs where "secs = t div 1000"
  define mins where "mins = t div 60000"
  define hours where "hours = t div 3600000"
  define days where "days = t div 86400000"
  define sec where "sec = secs mod 60"
  define minute where "minute = mins mod 60"
  define hour where "hour = hours mod 24"
  have a: "t = secs * 1000 + ms"
    by (simp add: secs_def ms_def)
  have "secs div 60 = mins"
    using zdiv_zmult2_eq [of 60 t 1000] by (simp add: secs_def mins_def)
  then have b: "secs = mins * 60 + sec"
    using div_mult_mod_eq [of secs 60] by (simp add: sec_def)
  have "mins div 60 = hours"
    using zdiv_zmult2_eq [of 60 t 60000] by (simp add: mins_def hours_def)
  then have c: "mins = hours * 60 + minute"
    using div_mult_mod_eq [of mins 60] by (simp add: minute_def)
  have "hours div 24 = days"
    using zdiv_zmult2_eq [of 24 t 3600000] by (simp add: hours_def days_def)
  then have d: "hours = days * 24 + hour"
    using div_mult_mod_eq [of hours 24] by (simp add: hour_def)
  have "days * 86400000 + (hour * 3600000 + (minute + k) * 60000 + sec * 1000 + ms)
          = t + k * 60000"
    unfolding a b c d by (simp add: algebra_simps)
  then show ?thesis
    by (simp only: MakeDate_def MakeTime_def Day_def HourFromTime_def MinFromTime_def
      SecFromTime_def msFromTime_def msPerDay_def msPerHour_def msPerMinute_def
      ms_def secs_def mins_def hours_def days_def sec_def minute_def hour_def)
qed

lemma setMinutes_shift:
  "setMinutes z t (getMinutes z t + k) = UTC z (LocalTime z t + k * msPerMinute)"
  by (simp add: setMinutes_def getMinutes_def Let_def local_time_parts)

lemma setMinutes_fixedZone:
  "setMinutes (fixedZone off) t (getMinutes (fixedZone off) t + k) = t + k * 60000"
  by (simp add: setMinutes_shift UTC_def LocalTime_def fixedZone_def msPerMinute_def)

lemma upcomingLoop_map:
  "upcomingLoop z next per i count runs =
     runs @ map (\<lambda>j. setMinutes z next (getMinutes z next + j * per)) [i..count - 1]"
proof (induction z "next" per i count runs rule: upcomingLoop.induct)
  case (1 z "next" per i count runs)
  show ?case
  proof (cases "i < count")
    case True
    then have "[i..count - 1] = i # [i + 1..count - 1]"
      by (simp add: upto_rec1)
    with True 1 show ?thesis
      by (simp add: upcomingLoop.simps [of z "next" per i])
  next
    case False
    then show ?thesis
      by (simp add: upcomingLoop.simps [of z "next" per i])
  qed
qed

lemma getUpcomingRuns_fixedZone:
  assumes "salesSyncJob s = Some sj" and "registrationSyncJob s = Some rj"
  shows "getUpcomingRuns (fixedZone off) nextDate count s =
           \<lparr> sales = map (\<lambda>i. nextDate sj + i * 300000) [0..count - 1],
             registrations = map (\<lambda>i. nextDate rj + i * 60000) [0..count - 1] \<rparr>"
  by (simp add: getUpcomingRuns_def assms upcomingLoop_map setMinutes_fixedZone)

lemma upto_0_2: "[0..(2::int)] = [0, 1, 2]"
  by (simp add: upto_rec1 [of 0 2] upto_rec1 [of 1 2])

lemma getUpcomingRuns_fixedZone_three:
  "sales (getUpcomingRuns (fixedZone off) (\<lambda>j. T) 3 (start initial))
     = [T, T + 300000, T + 600000]"
  by (simp add: getUpcomingRuns_fixedZone [of _ "(newCronJob ''0 */5 * * * *'')\<lparr>running := True\<rparr>"
        "(newCronJob ''0 * * * * *'')\<lparr>running := True\<rparr>"] upto_0_2)

text \<open>
  Claim C9. With both jobs active and the next sales run at \<open>T\<close>,
  \<open>getUpcomingRuns(3)\<close> is to return the sales projections \<open>T\<close>, \<open>T\<close> + 5 min,
  \<open>T\<close> + 10 min. On a host in a zone that leaves daylight saving time at
  2025-11-02T06:00Z, with \<open>T\<close> = 2025-11-02T05:55Z (01:55 local time), the method
  returns \<open>T\<close>, \<open>T\<close> + 65 min, \<open>T\<close> + 70 min: the local time 02:00 that
  \<open>setMinutes\<close> produces is read with the offset in force after the transition.
\<close>

theorem upcoming_runs_across_end_of_dst:
  "getUpcomingRuns fallBackZone (\<lambda>j. 1762062900000) 3 (start initial) =
     \<lparr> sales = [1762062900000, 1762062900000 + 3900000, 1762062900000 + 4200000],
       registrations = [1762062900000, 1762062900000 + 60000, 1762062900000 + 120000] \<rparr>
   \<and> sales (getUpcomingRuns fallBackZone (\<lambda>j. 1762062900000) 3 (start initial))
       \<noteq> [1762062900000, 1762062900000 + 300000, 1762062900000 + 600000]"
  by (simp add: getUpcomingRuns_def upcomingLoop_map setMinutes_shift UTC_def LocalTime_def
        fallBackZone_def msPerMinute_def upto_0_2)

theorem upcoming_runs_across_end_of_dst_witness:
  "sales (getUpcomingRuns fallBackZone (\<lambda>j. 1762062900000) 3 (start initial))
     = [1762062900000, 1762066800000, 1762067100000]
   \<and> sales (getUpcomingRuns (fixedZone (- 18000000)) (\<lambda>j. 1762062900000) 3 (start initial))
     = [1762062900000, 1762063200000, 1762063500000]"
  using upcoming_runs_across_end_of_dst
  by (simp add: getUpcomingRuns_fixedZone_three)

section \<open>The manual trigger\<close>

text \<open>
  The manual trigger calls the sales sync and then, unless that one's promise is
  rejected, the registration sync. A sync method rejects only when its own \<open>catch\<close>
  block fails on a \<open>null\<close> or \<open>undefined\<close> error; in every other case the manual
  trigger returns the object of its \<open>try\<close> block, \<open>success: true\<close>. It leaves
  the two jobs as they are unless the sales sync runs, fails and brings the counter to
  the threshold.
\<close>

lemma runSalesSync_fulfilled:
  assumes "\<not> (isRunning s \<and> salesSyncThrowsNullish env)"
  shows "fst (runSalesSync env s) = None"
proof (cases "isRunning s")
  case False
  then show ?thesis by (simp add: runSalesSync_skipped)
next
  case True
  with assms have n: "salesSyncOutcome env \<noteq> Inl JsNullish"
    by (simp add: salesSyncThrowsNullish_def)
  show ?thesis
  proof (cases "salesSyncOutcome env")
    case (Inl e)
    with n have "e \<noteq> JsNullish" by simp
    with True Inl show ?thesis by (simp add: runSalesSync_failed)
  next
    case (Inr v)
    obtain result rs where "v = (result, rs)" by (cases v)
    with True Inr show ?thesis by (simp add: runSalesSync_succeeded)
  qed
qed

lemma registrationSyncTry_fst:
  "fst (registrationSyncTry env s) = fst (registrationSyncTry env initial)"
  by (simp add: registrationSyncTry_def Let_def split: sum.split)

lemma runRegistrationSync_fulfilled:
  assumes "\<not> (isRunning s \<and> fst (registrationSyncTry env initial) = Inl JsNullish)"
  shows "fst (runRegistrationSync env s) = None"
proof (cases "isRunning s")
  case False
  then show ?thesis by (simp add: runRegistrationSync_def)
next
  case True
  let ?s0 = "logger Info ''Starting registration sync...'' s"
  obtain r s' where p: "registrationSyncTry env ?s0 = (r, s')"
    by (cases "registrationSyncTry env ?s0")
  then have "r = fst (registrationSyncTry env initial)"
    using registrationSyncTry_fst [of env ?s0] by simp
  with assms True have n: "r \<noteq> Inl JsNullish" by simp
  show ?thesis
  proof (cases r)
    case (Inl e)
    with n have "e \<noteq> JsNullish" by simp
    with True p Inl show ?thesis by (simp add: runRegistrationSync_def)
  next
    case (Inr v)
    obtain u rs where "v = (u, rs)" by (cases v)
    with True p Inr show ?thesis by (simp add: runRegistrationSync_def)
  qed
qed

lemma triggerManualSync_result:
  assumes "\<not> (isRunning s \<and> salesSyncThrowsNullish senv)"
    and "\<not> (isRunning (snd (runSalesSync senv
            (logger Info ''Manual sync triggered - running both sales and registration processing'' s)))
          \<and> fst (registrationSyncTry renv initial) = Inl JsNullish)"
  shows "fst (triggerManualSync senv renv s) =
     Inr \<lparr> manual_success = True,
           manual_stats = Some ''Both sales and registration sync completed'',
           manual_error = None \<rparr>"
proof -
  let ?s1 = "logger Info ''Manual sync triggered - running both sales and registration processing'' s"
  obtain r2 s2 where a: "runSalesSync senv ?s1 = (r2, s2)"
    by (cases "runSalesSync senv ?s1")
  obtain r3 s3 where b: "runRegistrationSync renv s2 = (r3, s3)"
    by (cases "runRegistrationSync renv s2")
  have "fst (runSalesSync senv ?s1) = None"
    using assms(1) by (intro runSalesSync_fulfilled) simp
  with a have r2: "r2 = None" by simp
  have "fst (runRegistrationSync renv s2) = None"
    using assms(2) a by (intro runRegistrationSync_fulfilled) simp
  with b have r3: "r3 = None" by simp
  show ?thesis
    by (simp add: triggerManualSync_def Let_def a b r2 r3)
qed

lemma triggerManualSync_nullish:
  assumes "isRunning s" and "salesSyncThrowsNullish senv"
  shows "fst (triggerManualSync senv renv s) =
           Inr \<lparr> manual_success = False, manual_stats = None,
                 manual_error = Some ''Cannot read properties of null or undefined'' \<rparr>"
    and "consecutiveErrors (snd (triggerManualSync senv renv s)) = consecutiveErrors s + 1"
    and "isRunning (snd (triggerManualSync senv renv s))"
    and "salesSyncJob (snd (triggerManualSync senv renv s)) = salesSyncJob s"
    and "registrationSyncJob (snd (triggerManualSync senv renv s)) = registrationSyncJob s"
proof -
  let ?s1 = "logger Info ''Manual sync triggered - running both sales and registration processing'' s"
  have run: "isRunning ?s1" using assms(1) by simp
  note one = runSalesSync_nullish [OF run assms(2)]
  obtain r2 s2 where a: "runSalesSync senv ?s1 = (r2, s2)"
    by (cases "runSalesSync senv ?s1")
  with one(1) have r2: "r2 = Some typeError" by simp
  show "fst (triggerManualSync senv renv s) =
           Inr \<lparr> manual_success = False, manual_stats = None,
                 manual_error = Some ''Cannot read properties of null or undefined'' \<rparr>"
    by (simp add: triggerManualSync_def Let_def a r2 manualSyncFailed_def typeError_def)
  show "consecutiveErrors (snd (triggerManualSync senv renv s)) = consecutiveErrors s + 1"
    by (simp add: triggerManualSync_fields one)
  show "isRunning (snd (triggerManualSync senv renv s))"
    by (simp add: triggerManualSync_fields one)
  show "salesSyncJob (snd (triggerManualSync senv renv s)) = salesSyncJob s"
    by (simp add: triggerManualSync_fields one)
  show "registrationSyncJob (snd (triggerManualSync senv renv s)) = registrationSyncJob s"
    by (simp add: triggerManualSync_fields one)
qed

lemma runSalesSync_tripped_jobs:
  assumes "isRunning s" and "salesSyncThrows env" and "\<not> salesSyncThrowsNullish env"
    and "maxConsecutiveErrors s \<le> consecutiveErrors s + 1"
  shows "salesSyncJob (snd (runSalesSync env s)) = None"
    and "registrationSyncJob (snd (runSalesSync env s)) = None"
proof -
  from assms(2) obtain e where e: "salesSyncOutcome env = Inl e"
    using salesSyncThrows_Inl by blast
  with assms(3) have n: "e \<noteq> JsNullish" by (simp add: salesSyncThrowsNullish_def)
  show "salesSyncJob (snd (runSalesSync env s)) = None"
    using assms(4) n by (simp add: runSalesSync_failed [OF assms(1) e])
  show "registrationSyncJob (snd (runSalesSync env s)) = None"
    using assms(4) n by (simp add: runSalesSync_failed [OF assms(1) e])
qed

lemma triggerManualSync_tripped:
  assumes "isRunning s" and "salesSyncThrows senv" and "\<not> salesSyncThrowsNullish senv"
    and "maxConsecutiveErrors s \<le> consecutiveErrors s + 1"
  shows "salesSyncJob (snd (triggerManualSync senv renv s)) = None
         \<and> registrationSyncJob (snd (triggerManualSync senv renv s)) = None"
proof -
  let ?s1 = "logger Info ''Manual sync triggered - running both sales and registration processing'' s"
  have "isRunning ?s1" and "maxConsecutiveErrors ?s1 \<le> consecutiveErrors ?s1 + 1"
    using assms by simp_all
  then have "salesSyncJob (snd (runSalesSync senv ?s1)) = None"
    and "registrationSyncJob (snd (runSalesSync senv ?s1)) = None"
    using assms(2,3) by (simp_all add: runSalesSync_tripped_jobs)
  then show ?thesis by (simp add: triggerManualSync_fields)
qed

lemma four_failures:
  "isRunning (runSalesSyncs (replicate 4 failingSalesEnv) (start initial))
   \<and> consecutiveErrors (runSalesSyncs (replicate 4 failingSalesEnv) (start initial)) = 4
   \<and> maxConsecutiveErrors (runSalesSyncs (replicate 4 failingSalesEnv) (start initial)) = 5"
  using failures_below_threshold [of "replicate 4 failingSalesEnv" "start initial"]
  by (simp add: salesSyncThrows_failingSalesEnv initial_def)

lemma triggerManualSync_keeps_jobs:
  assumes "\<not> (isRunning s \<and> salesSyncThrows senv
              \<and> maxConsecutiveErrors s \<le> consecutiveErrors s + 1)"
  shows "salesSyncJob (snd (triggerManualSync senv renv s)) = salesSyncJob s
         \<and> registrationSyncJob (snd (triggerManualSync senv renv s)) = registrationSyncJob s"
proof -
  let ?s1 = "logger Info ''Manual sync triggered - running both sales and registration processing'' s"
  have "salesSyncJob (snd (runSalesSync senv ?s1)) = salesSyncJob s
        \<and> registrationSyncJob (snd (runSalesSync senv ?s1)) = registrationSyncJob s"
  proof (cases "isRunning s")
    case False
    then show ?thesis by (simp add: runSalesSync_skipped)
  next
    case True
    show ?thesis
    proof (cases "salesSyncOutcome senv")
      case (Inl e)
      then have "salesSyncThrows senv" by (simp add: salesSyncThrows_def)
      with True assms have "\<not> maxConsecutiveErrors s \<le> consecutiveErrors s + 1" by simp
      with True Inl show ?thesis by (simp add: runSalesSync_failed)
    next
      case (Inr v)
      obtain result rs where "v = (result, rs)" by (cases v)
      with True Inr show ?thesis by (simp add: runSalesSync_succeeded)
    qed
  qed
  then show ?thesis by (simp add: triggerManualSync_fields)
qed

text \<open>
  Claim C7. The manual trigger is to report failure in its result and to leave both jobs
  alone. On a running scheduler with four failed sales syncs behind it, a manual trigger
  whose sales sync and registration sync both fail discards both jobs (the trip-wire
  fires inside the sales sync) and returns \<open>success: true\<close> with no error.
\<close>

theorem manual_sync_discards_jobs_and_reports_success:
  "bothActive (runSalesSyncs (replicate 4 failingSalesEnv) (start initial))
   \<and> salesSyncThrows failingSalesEnv
   \<and> registrationSyncThrows failingRegistrationEnv
   \<and> salesSyncJob (snd (triggerManualSync failingSalesEnv failingRegistrationEnv
         (runSalesSyncs (replicate 4 failingSalesEnv) (start initial)))) = None
   \<and> registrationSyncJob (snd (triggerManualSync failingSalesEnv failingRegistrationEnv
         (runSalesSyncs (replicate 4 failingSalesEnv) (start initial)))) = None
   \<and> fst (triggerManualSync failingSalesEnv failingRegistrationEnv
         (runSalesSyncs (replicate 4 failingSalesEnv) (start initial)))
       = Inr \<lparr> manual_success = True,
               manual_stats = Some ''Both sales and registration sync completed'',
               manual_error = None \<rparr>"
proof -
  let ?s = "runSalesSyncs (replicate 4 failingSalesEnv) (start initial)"
  have "stateInvariant ?s"
    by (intro stateInvariant_runSalesSyncs stateInvariant_start)
  with four_failures have "bothActive ?s"
    by (simp add: stateInvariant_def)
  moreover have "salesSyncJob (snd (triggerManualSync failingSalesEnv failingRegistrationEnv ?s)) = None
         \<and> registrationSyncJob (snd (triggerManualSync failingSalesEnv failingRegistrationEnv ?s)) = None"
    using four_failures by (intro triggerManualSync_tripped salesSyncThrows_failingSalesEnv) simp_all
  moreover have "fst (triggerManualSync failingSalesEnv failingRegistrationEnv ?s)
       = Inr \<lparr> manual_success = True,
               manual_stats = Some ''Both sales and registration sync completed'',
               manual_error = None \<rparr>"
    by (intro triggerManualSync_result)
       (simp_all add: salesSyncThrows_failingSalesEnv registrationSyncTry_def
          failingRegistrationEnv_def Let_def)
  ultimately show ?thesis
    by (simp add: salesSyncThrows_failingSalesEnv registrationSyncThrows_failingRegistrationEnv)
qed

theorem manual_sync_discards_jobs_and_reports_success_witness:
  "salesSyncJob (runSalesSyncs (replicate 4 failingSalesEnv) (start initial)) \<noteq> None
   \<and> registrationSyncJob (runSalesSyncs (replicate 4 failingSalesEnv) (start initial)) \<noteq> None
   \<and> salesSyncJob (snd (triggerManualSync failingSalesEnv failingRegistrationEnv
         (runSalesSyncs (replicate 4 failingSalesEnv) (start initial)))) = None
   \<and> registrationSyncJob (snd (triggerManualSync failingSalesEnv failingRegistrationEnv
         (runSalesSyncs (replicate 4 failingSalesEnv) (start initial)))) = None
   \<and> fst (triggerManualSync failingSalesEnv failingRegistrationEnv
         (runSalesSyncs (replicate 4 failingSalesEnv) (start initial)))
       = Inr \<lparr> manual_success = True,
               manual_stats = Some ''Both sales and registration sync completed'',
               manual_error = None \<rparr>"
  using manual_sync_discards_jobs_and_reports_success
    bothActive_jobs [of "runSalesSyncs (replicate 4 failingSalesEnv) (start initial)"]
  by blast

section \<open>Reachable states\<close>

text \<open>
  The state invariant holds in every state the class can reach, and the threshold is 5
  throughout, since no operation writes it.
\<close>

lemma maxConsecutiveErrors_runSalesSync:
  "maxConsecutiveErrors (snd (runSalesSync env s)) = maxConsecutiveErrors s"
  by (cases "salesSyncOutcome env") (auto simp add: runSalesSync_cases)

lemma maxConsecutiveErrors_initializeFromDatabase:
  "maxConsecutiveErrors (snd (initializeFromDatabase saved s)) = maxConsecutiveErrors s"
proof (cases saved)
  case (Inl e)
  then show ?thesis by (cases e) (simp_all add: initializeFromDatabase_def Let_def)
next
  case (Inr savedState)
  then show ?thesis by (simp add: initializeFromDatabase_def Let_def)
qed

lemma maxConsecutiveErrors_exec: "maxConsecutiveErrors (exec op s) = maxConsecutiveErrors s"
  by (cases op)
     (simp_all add: maxConsecutiveErrors_runSalesSync maxConsecutiveErrors_initializeFromDatabase
        triggerManualSync_fields resetErrorCounter_def)

lemma reachable_stateInvariant:
  "reachable s \<Longrightarrow> stateInvariant s \<and> maxConsecutiveErrors s = 5"
proof (induction s rule: reachable.induct)
  case reachable_initial
  show ?case by (simp add: stateInvariant_initial) (simp add: initial_def)
next
  case (reachable_exec s op)
  then show ?case by (simp add: stateInvariant_exec maxConsecutiveErrors_exec)
qed

end
